theory Spec2Isabelle
  imports Main
begin

section \<open>Backend: data model of the session store\<close>

text \<open>
  Instants (JavaScript \<open>Date\<close> values, database timestamps) are milliseconds since the
  epoch. Identifiers, tokens and e-mail addresses are strings.
\<close>

type_synonym date = int

text \<open>
  What an operation of the service can throw. \<open>UnauthorizedException\<close> is the NestJS
  exception of status 401; \<open>Error\<close> is a plain JavaScript \<open>Error\<close> (no HTTP status of its
  own); \<open>PrismaError\<close> is an error of the database client, named by its code;
  \<open>JwtSignError\<close> is \<open>jwtService.sign\<close> throwing.
\<close>

datatype error =
    UnauthorizedException string
  | Error string
  | PrismaError string
  | JwtSignError

datatype Role = USER | ADMIN

record User =
  user_id :: string
  email :: string
  password :: "string option"
  provider :: string
  providerId :: "string option"
  firstName :: "string option"
  lastName :: "string option"
  avatarUrl :: "string option"
  role :: Role
  hasCompletedOnboarding :: bool
  createdAt :: date
  updatedAt :: date
  deletedAt :: "date option"

record RefreshToken =
  rt_id :: string
  token :: string
  userId :: string
  expiresAt :: date
  rt_createdAt :: date
  revokedAt :: "date option"

text \<open>The two tables, each a list of rows in insertion order.\<close>

record database =
  user_table :: "User list"
  refreshToken_table :: "RefreshToken list"

text \<open>The \<open>select\<close> of the queries that return a user: the row without its password,
  provider fields and audit timestamps. \<open>completeOnboarding\<close> selects the profile
  alone, the logins and \<open>getMe\<close> add \<open>createdAt\<close>, and \<open>register\<close> selects its own
  set, without \<open>avatarUrl\<close>.\<close>

record UserProfile =
  v_id :: string
  v_email :: string
  v_firstName :: "string option"
  v_lastName :: "string option"
  v_avatarUrl :: "string option"
  v_role :: Role
  v_hasCompletedOnboarding :: bool

record UserView = UserProfile +
  v_createdAt :: date

record RegisteredView =
  r_id :: string
  r_email :: string
  r_firstName :: "string option"
  r_lastName :: "string option"
  r_role :: Role
  r_hasCompletedOnboarding :: bool
  r_createdAt :: date

definition select_profile :: "User \<Rightarrow> UserProfile" where
  "select_profile u =
     \<lparr>v_id = user_id u, v_email = email u, v_firstName = firstName u,
      v_lastName = lastName u, v_avatarUrl = avatarUrl u, v_role = role u,
      v_hasCompletedOnboarding = hasCompletedOnboarding u\<rparr>"

definition select_user :: "User \<Rightarrow> UserView" where
  "select_user u =
     \<lparr>v_id = user_id u, v_email = email u, v_firstName = firstName u,
      v_lastName = lastName u, v_avatarUrl = avatarUrl u, v_role = role u,
      v_hasCompletedOnboarding = hasCompletedOnboarding u, v_createdAt = createdAt u\<rparr>"

definition select_registered :: "User \<Rightarrow> RegisteredView" where
  "select_registered u =
     \<lparr>r_id = user_id u, r_email = email u, r_firstName = firstName u,
      r_lastName = lastName u, r_role = role u,
      r_hasCompletedOnboarding = hasCompletedOnboarding u, r_createdAt = createdAt u\<rparr>"

record tokens =
  accessToken :: string
  refreshToken :: string

record JwtPayload =
  sub :: string
  jwt_email :: string
  jwt_role :: Role

text \<open>The identity claims returned by the provider's \<open>tokeninfo\<close> endpoint. A claim the
  response does not carry is \<open>None\<close> (\<open>undefined\<close>). The fields the code never reads
  (\<open>iss\<close>, \<open>azp\<close>, \<open>at_hash\<close>, \<open>email_verified\<close>, \<open>name\<close>, \<open>locale\<close>, \<open>iat\<close>, \<open>exp\<close>)
  travel in the record's extension slot.\<close>

record GoogleUserInfo =
  g_aud :: string
  g_sub :: string
  g_email :: "string option"
  g_given_name :: "string option"
  g_family_name :: "string option"
  g_picture :: "string option"

text \<open>The configuration keys the service reads with \<open>configService.get\<close>; a key that is
  not set is \<open>None\<close>.\<close>

record config =
  jwt_secret :: "string option"
  jwt_expiresIn :: "string option"
  jwt_refreshExpiresIn :: "string option"
  firebase_webClientId :: "string option"
  firebase_iosClientId :: "string option"

text \<open>The collaborators of the service: the JWT library, the password hash and the
  provider's verification endpoint (\<open>None\<close>: the HTTP call is rejected).\<close>

record deps =
  jwtService_sign :: "JwtPayload \<Rightarrow> string option \<Rightarrow> nat \<Rightarrow> string option"
  bcrypt_hash :: "string \<Rightarrow> string"
  bcrypt_compare :: "string \<Rightarrow> string \<Rightarrow> bool"
  tokeninfo :: "string \<Rightarrow> GoogleUserInfo option"

text \<open>The values one token issue draws from outside: the clock at the issue
  (\<open>new Date()\<close>, also the row's \<open>createdAt\<close> default), the row id the database
  generates and the result of \<open>uuidv4()\<close>.\<close>

record fresh =
  f_now :: date
  f_id :: string
  f_token :: string

subsection \<open>JavaScript truthiness on optional strings\<close>

text \<open>\<open>!x\<close> on a \<open>string | undefined\<close>: \<open>undefined\<close> and the empty string are falsy.\<close>

definition truthy :: "string option \<Rightarrow> bool" where
  "truthy x = (case x of None \<Rightarrow> False | Some s \<Rightarrow> s \<noteq> [])"

text \<open>\<open>x || d\<close> with a string default, and \<open>x || null\<close>.\<close>

definition or_default :: "string option \<Rightarrow> string \<Rightarrow> string" where
  "or_default x d = (case x of None \<Rightarrow> d | Some s \<Rightarrow> if s = [] then d else s)"

definition or_null :: "string option \<Rightarrow> string option" where
  "or_null x = (case x of None \<Rightarrow> None | Some s \<Rightarrow> if s = [] then None else Some s)"

section \<open>Expiry durations\<close>

definition is_digit :: "char \<Rightarrow> bool" where
  "is_digit c = (c \<in> set ''0123456789'')"

definition is_unit :: "char \<Rightarrow> bool" where
  "is_unit c = (c \<in> set ''dhms'')"

text \<open>
  \<open>expiry.match(/^(\d+)([dhms])$/)\<close>: the whole string is one or more decimal digits
  followed by exactly one unit letter. The two groups are returned; \<open>None\<close> is \<open>null\<close>.
\<close>

definition expiry_match :: "string \<Rightarrow> (string \<times> char) option" where
  "expiry_match expiry =
     (if expiry = [] then None
      else if butlast expiry \<noteq> [] \<and> list_all is_digit (butlast expiry) \<and> is_unit (last expiry)
      then Some (butlast expiry, last expiry)
      else None)"

text \<open>\<open>parseInt(s, 10)\<close> on a string of decimal digits. The JavaScript number is a double:
  the value is exact for up to fifteen digits, which covers every duration in seconds that
  fits a \<open>Date\<close>.\<close>

definition digit_val :: "char \<Rightarrow> nat" where
  "digit_val c = of_char c - 48"

definition parseInt10 :: "string \<Rightarrow> nat" where
  "parseInt10 ds = foldl (\<lambda>n c. 10 * n + digit_val c) 0 ds"

definition parseExpiryToSeconds :: "string \<Rightarrow> nat" where
  "parseExpiryToSeconds expiry =
     (case expiry_match expiry of
        None \<Rightarrow> 900
      | Some (digits, unit) \<Rightarrow>
          (let v = parseInt10 digits in
           if unit = CHR ''d'' then v * 86400
           else if unit = CHR ''h'' then v * 3600
           else if unit = CHR ''m'' then v * 60
           else if unit = CHR ''s'' then v
           else 900))"

text \<open>The lifetimes \<open>generateTokens\<close> computes from the configuration.\<close>

definition accessExpiresIn :: "config \<Rightarrow> nat" where
  "accessExpiresIn cfg = parseExpiryToSeconds (or_default (jwt_expiresIn cfg) ''15m'')"

definition refreshSeconds :: "config \<Rightarrow> nat" where
  "refreshSeconds cfg = parseExpiryToSeconds (or_default (jwt_refreshExpiresIn cfg) ''7d'')"

text \<open>The \<open>signOptions.expiresIn\<close> of the \<open>JwtModule\<close> factory: the same parse written
  inline, starting from 900 and overwritten on a match.\<close>

definition jwtModule_expiresIn :: "config \<Rightarrow> nat" where
  "jwtModule_expiresIn cfg =
     (let expiresInStr = or_default (jwt_expiresIn cfg) ''15m'' in
      case expiry_match expiresInStr of
        None \<Rightarrow> 900
      | Some (digits, unit) \<Rightarrow>
          (let v = parseInt10 digits in
           if unit = CHR ''d'' then v * 86400
           else if unit = CHR ''h'' then v * 3600
           else if unit = CHR ''m'' then v * 60
           else if unit = CHR ''s'' then v
           else 900))"

section \<open>Backend: the database client\<close>

text \<open>
  The queries of the Prisma client the service issues, with the constraints the database
  enforces on a write. They are those of the schema as the repository's documents give it
  (\<open>docs/plans/2026-01-21-google-oauth-implementation.md\<close>) and its migration: the primary
  keys, \<open>@unique\<close> on \<open>User.email\<close> and \<open>RefreshToken.token\<close>,
  \<open>@@unique([provider, providerId])\<close> (rows whose \<open>providerId\<close> is null never collide)
  and the foreign key from \<open>RefreshToken.userId\<close> to \<open>User.id\<close>.
\<close>

definition provider_taken :: "User list \<Rightarrow> string \<Rightarrow> string \<Rightarrow> string \<Rightarrow> bool" where
  "provider_taken us uid prov pid =
     list_ex (\<lambda>u. user_id u \<noteq> uid \<and> provider u = prov \<and> providerId u = Some pid) us"

definition user_create :: "database \<Rightarrow> User \<Rightarrow> error + database" where
  "user_create db row =
     (if list_ex (\<lambda>u. user_id u = user_id row) (user_table db) then Inl (PrismaError ''P2002'')
      else if list_ex (\<lambda>u. email u = email row) (user_table db) then Inl (PrismaError ''P2002'')
      else if (case providerId row of None \<Rightarrow> False
               | Some pid \<Rightarrow> provider_taken (user_table db) (user_id row) (provider row) pid)
      then Inl (PrismaError ''P2002'')
      else Inr (db\<lparr>user_table := user_table db @ [row]\<rparr>))"

definition refreshToken_create :: "database \<Rightarrow> RefreshToken \<Rightarrow> error + database" where
  "refreshToken_create db row =
     (if list_ex (\<lambda>r. rt_id r = rt_id row) (refreshToken_table db) then Inl (PrismaError ''P2002'')
      else if list_ex (\<lambda>r. token r = token row) (refreshToken_table db)
      then Inl (PrismaError ''P2002'')
      else if \<not> list_ex (\<lambda>u. user_id u = userId row) (user_table db)
      then Inl (PrismaError ''P2003'')
      else Inr (db\<lparr>refreshToken_table := refreshToken_table db @ [row]\<rparr>))"

text \<open>\<open>refreshToken.findUnique({ where: { token }, include: { user: true } })\<close>: the row
  and its owner. The relation is required, so a row whose owner is missing is an error of
  the client, not a result.\<close>

definition refreshToken_findUnique ::
  "database \<Rightarrow> string \<Rightarrow> error + (RefreshToken \<times> User) option" where
  "refreshToken_findUnique db t =
     (case find (\<lambda>r. token r = t) (refreshToken_table db) of
        None \<Rightarrow> Inr None
      | Some st \<Rightarrow>
          (case find (\<lambda>u. user_id u = userId st) (user_table db) of
             None \<Rightarrow> Inl (PrismaError ''Inconsistent query result'')
           | Some u \<Rightarrow> Inr (Some (st, u))))"

text \<open>\<open>refreshToken.update({ where: { id }, data: { revokedAt } })\<close> on a row that exists.\<close>

definition refreshToken_revoke :: "database \<Rightarrow> string \<Rightarrow> date \<Rightarrow> database" where
  "refreshToken_revoke db rid now =
     db\<lparr>refreshToken_table :=
          map (\<lambda>r. if rt_id r = rid then r\<lparr>revokedAt := Some now\<rparr> else r)
            (refreshToken_table db)\<rparr>"

text \<open>\<open>refreshToken.updateMany({ where: { token }, data: { revokedAt } })\<close>: every matching
  row, none being no error.\<close>

definition refreshToken_updateMany :: "database \<Rightarrow> string \<Rightarrow> date \<Rightarrow> database" where
  "refreshToken_updateMany db t now =
     db\<lparr>refreshToken_table :=
          map (\<lambda>r. if token r = t then r\<lparr>revokedAt := Some now\<rparr> else r)
            (refreshToken_table db)\<rparr>"

text \<open>The \<open>user.upsert\<close> of the Google login, keyed by e-mail alone: the row with this
  e-mail is updated (provider subject and avatar), or a new row is created.\<close>

definition google_update :: "GoogleUserInfo \<Rightarrow> date \<Rightarrow> User \<Rightarrow> User" where
  "google_update g now u =
     u\<lparr>providerId := Some (g_sub g), avatarUrl := or_null (g_picture g), updatedAt := now\<rparr>"

definition google_create :: "GoogleUserInfo \<Rightarrow> date \<Rightarrow> string \<Rightarrow> string \<Rightarrow> User" where
  "google_create g now new_id e =
     \<lparr>user_id = new_id, email = e, password = None, provider = ''google'',
      providerId = Some (g_sub g), firstName = or_null (g_given_name g),
      lastName = or_null (g_family_name g), avatarUrl = or_null (g_picture g),
      role = USER, hasCompletedOnboarding = False, createdAt = now, updatedAt = now,
      deletedAt = None\<rparr>"

definition user_upsert ::
  "database \<Rightarrow> date \<Rightarrow> string \<Rightarrow> GoogleUserInfo \<Rightarrow> string \<Rightarrow> error + (database \<times> User)" where
  "user_upsert db now new_id g e =
     (case find (\<lambda>u. email u = e) (user_table db) of
        None \<Rightarrow>
          (case user_create db (google_create g now new_id e) of
             Inl err \<Rightarrow> Inl err
           | Inr db' \<Rightarrow> Inr (db', google_create g now new_id e))
      | Some u \<Rightarrow>
          if provider_taken (user_table db) (user_id u) (provider u) (g_sub g)
          then Inl (PrismaError ''P2002'')
          else Inr (db\<lparr>user_table :=
                        map (\<lambda>x. if email x = e then google_update g now x else x)
                          (user_table db)\<rparr>,
                    google_update g now u))"

section \<open>Backend: the token verifier\<close>

datatype log_entry = Log string | Warn string | LogError string

definition show_opt :: "string option \<Rightarrow> string" where
  "show_opt x = (case x of None \<Rightarrow> ''undefined'' | Some s \<Rightarrow> s)"

text \<open>\<open>FirebaseAdminService.verifyGoogleToken\<close>: the log entries written and the outcome.\<close>

definition verifyGoogleToken ::
  "deps \<Rightarrow> config \<Rightarrow> string \<Rightarrow> log_entry list \<times> (error + GoogleUserInfo)" where
  "verifyGoogleToken d cfg idToken =
     (case tokeninfo d idToken of
        None \<Rightarrow> ([LogError ''Failed to verify Google token''], Inl (Error ''Invalid Google token''))
      | Some data \<Rightarrow>
          (let expectedAudience = firebase_webClientId cfg;
               iosAudience = firebase_iosClientId cfg;
               warning =
                 (if Some (g_aud data) \<noteq> expectedAudience \<and> Some (g_aud data) \<noteq> iosAudience
                  then [Warn (''Token audience mismatch: expected '' @ show_opt expectedAudience
                              @ '' or '' @ show_opt iosAudience @ '', got '' @ g_aud data)]
                  else [])
           in (warning @ [Log (''Google token verified for user: '' @ show_opt (g_email data))],
               Inr data)))"

section \<open>Backend: the session issuer\<close>

text \<open>Every operation returns the database it leaves behind and its outcome: the writes
  made before a failure stay, since the service opens no transaction.

  In \<open>generateTokens\<close> the expiry of the new credential is the clock moved on by
  \<open>setSeconds\<close>, that is by \<open>refreshSeconds\<close> seconds of the server's local time; the
  model adds the milliseconds, which is the same instant wherever no daylight-saving
  change falls in between.\<close>

definition generateTokens ::
  "deps \<Rightarrow> config \<Rightarrow> fresh \<Rightarrow> database \<Rightarrow> string \<Rightarrow> string \<Rightarrow> Role
     \<Rightarrow> database \<times> (error + tokens)" where
  "generateTokens d cfg fr db uid em rl =
     (case jwtService_sign d \<lparr>sub = uid, jwt_email = em, jwt_role = rl\<rparr>
             (jwt_secret cfg) (accessExpiresIn cfg) of
        None \<Rightarrow> (db, Inl JwtSignError)
      | Some access \<Rightarrow>
          (case refreshToken_create db
                  \<lparr>rt_id = f_id fr, token = f_token fr, userId = uid,
                   expiresAt = f_now fr + 1000 * int (refreshSeconds cfg),
                   rt_createdAt = f_now fr, revokedAt = None\<rparr> of
             Inl err \<Rightarrow> (db, Inl err)
           | Inr db' \<Rightarrow> (db', Inr \<lparr>accessToken = access, refreshToken = f_token fr\<rparr>)))"

definition loginWithGoogle ::
  "deps \<Rightarrow> config \<Rightarrow> date \<Rightarrow> string \<Rightarrow> fresh \<Rightarrow> database \<Rightarrow> string
     \<Rightarrow> database \<times> (error + UserView \<times> tokens)" where
  "loginWithGoogle d cfg now new_id fr db idToken =
     (case snd (verifyGoogleToken d cfg idToken) of
        Inl err \<Rightarrow> (db, Inl err)
      | Inr googleUser \<Rightarrow>
          (case g_email googleUser of
             None \<Rightarrow> (db, Inl (UnauthorizedException ''Email not provided by Google''))
           | Some e \<Rightarrow>
               if e = [] then (db, Inl (UnauthorizedException ''Email not provided by Google''))
               else
                 (case user_upsert db now new_id googleUser e of
                    Inl err \<Rightarrow> (db, Inl err)
                  | Inr (db1, user) \<Rightarrow>
                      (case generateTokens d cfg fr db1 (user_id user) (email user) (role user) of
                         (db2, Inl err) \<Rightarrow> (db2, Inl err)
                       | (db2, Inr tk) \<Rightarrow> (db2, Inr (select_user user, tk))))))"

definition register ::
  "deps \<Rightarrow> config \<Rightarrow> date \<Rightarrow> string \<Rightarrow> fresh \<Rightarrow> database \<Rightarrow> string \<Rightarrow> string
     \<Rightarrow> string option \<Rightarrow> string option \<Rightarrow> database \<times> (error + RegisteredView \<times> tokens)" where
  "register d cfg now new_id fr db e pw first_name last_name =
     (case find (\<lambda>u. email u = e) (user_table db) of
        Some existingUser \<Rightarrow> (db, Inl (UnauthorizedException ''Email already registered''))
      | None \<Rightarrow>
          (let row = \<lparr>user_id = new_id, email = e, password = Some (bcrypt_hash d pw),
                      provider = ''email'', providerId = None, firstName = first_name,
                      lastName = last_name, avatarUrl = None, role = USER,
                      hasCompletedOnboarding = False, createdAt = now, updatedAt = now,
                      deletedAt = None\<rparr>
           in case user_create db row of
                Inl err \<Rightarrow> (db, Inl err)
              | Inr db1 \<Rightarrow>
                  (case generateTokens d cfg fr db1 (user_id row) (email row) (role row) of
                     (db2, Inl err) \<Rightarrow> (db2, Inl err)
                   | (db2, Inr tk) \<Rightarrow> (db2, Inr (select_registered row, tk)))))"

definition login ::
  "deps \<Rightarrow> config \<Rightarrow> fresh \<Rightarrow> database \<Rightarrow> string \<Rightarrow> string
     \<Rightarrow> database \<times> (error + UserView \<times> tokens)" where
  "login d cfg fr db e pw =
     (case find (\<lambda>u. email u = e \<and> deletedAt u = None) (user_table db) of
        None \<Rightarrow> (db, Inl (UnauthorizedException ''Invalid credentials''))
      | Some user \<Rightarrow>
          if provider user \<noteq> ''email''
          then (db, Inl (UnauthorizedException ''Please use OAuth to sign in''))
          else
            (case password user of
               None \<Rightarrow> (db, Inl (UnauthorizedException ''Invalid credentials''))
             | Some hashed \<Rightarrow>
                 if hashed = [] then (db, Inl (UnauthorizedException ''Invalid credentials''))
                 else if \<not> bcrypt_compare d pw hashed
                 then (db, Inl (UnauthorizedException ''Invalid credentials''))
                 else
                   (case generateTokens d cfg fr db (user_id user) (email user) (role user) of
                      (db1, Inl err) \<Rightarrow> (db1, Inl err)
                    | (db1, Inr tk) \<Rightarrow> (db1, Inr (select_user user, tk)))))"

definition getMe :: "database \<Rightarrow> string \<Rightarrow> error + UserView" where
  "getMe db uid =
     (case find (\<lambda>u. user_id u = uid \<and> deletedAt u = None) (user_table db) of
        None \<Rightarrow> Inl (UnauthorizedException ''User not found'')
      | Some user \<Rightarrow> Inr (select_user user))"

text \<open>\<open>completeOnboarding\<close>: \<open>user.update\<close> by id alone; a missing row is the client's
  error P2025.\<close>

definition completeOnboarding ::
  "date \<Rightarrow> database \<Rightarrow> string \<Rightarrow> database \<times> (error + UserProfile)" where
  "completeOnboarding now db uid =
     (case find (\<lambda>u. user_id u = uid) (user_table db) of
        None \<Rightarrow> (db, Inl (PrismaError ''P2025''))
      | Some u \<Rightarrow>
          (db\<lparr>user_table :=
                map (\<lambda>x. if user_id x = uid
                          then x\<lparr>hasCompletedOnboarding := True, updatedAt := now\<rparr> else x)
                  (user_table db)\<rparr>,
           Inr (select_profile (u\<lparr>hasCompletedOnboarding := True, updatedAt := now\<rparr>))))"

text \<open>\<open>refreshTokens\<close>: \<open>now\<close> is the clock at the validity check, \<open>now_revoke\<close> the clock
  at the revocation.\<close>

definition refreshTokens ::
  "deps \<Rightarrow> config \<Rightarrow> date \<Rightarrow> date \<Rightarrow> fresh \<Rightarrow> database \<Rightarrow> string
     \<Rightarrow> database \<times> (error + tokens)" where
  "refreshTokens d cfg now now_revoke fr db t =
     (case refreshToken_findUnique db t of
        Inl err \<Rightarrow> (db, Inl err)
      | Inr None \<Rightarrow> (db, Inl (UnauthorizedException ''Invalid refresh token''))
      | Inr (Some (storedToken, user)) \<Rightarrow>
          if revokedAt storedToken \<noteq> None \<or> expiresAt storedToken < now
          then (db, Inl (UnauthorizedException ''Invalid refresh token''))
          else generateTokens d cfg fr (refreshToken_revoke db (rt_id storedToken) now_revoke)
                 (user_id user) (email user) (role user))"

definition logout :: "date \<Rightarrow> database \<Rightarrow> string \<Rightarrow> database \<times> (error + unit)" where
  "logout now db t = (refreshToken_updateMany db t now, Inr ())"

subsection \<open>Runs of the service\<close>

text \<open>One call of the service with the outside values it draws, and the database a
  sequence of calls leaves behind, whether each call succeeds or fails.\<close>

datatype call =
    LoginWithGoogle date string fresh string
  | Register date string fresh string string "string option" "string option"
  | Login fresh string string
  | GetMe string
  | CompleteOnboarding date string
  | RefreshTokens date date fresh string
  | Logout date string

fun exec :: "deps \<Rightarrow> config \<Rightarrow> database \<Rightarrow> call \<Rightarrow> database" where
  "exec d cfg db (LoginWithGoogle now new_id fr idToken) =
     fst (loginWithGoogle d cfg now new_id fr db idToken)"
| "exec d cfg db (Register now new_id fr e pw first_name last_name) =
     fst (register d cfg now new_id fr db e pw first_name last_name)"
| "exec d cfg db (Login fr e pw) = fst (login d cfg fr db e pw)"
| "exec d cfg db (GetMe uid) = db"
| "exec d cfg db (CompleteOnboarding now uid) = fst (completeOnboarding now db uid)"
| "exec d cfg db (RefreshTokens now now_revoke fr t) =
     fst (refreshTokens d cfg now now_revoke fr db t)"
| "exec d cfg db (Logout now t) = fst (logout now db t)"

text \<open>A credential is spent in a database when the lookup by its token finds a row that
  is revoked and whose owner exists.\<close>

definition spent :: "database \<Rightarrow> string \<Rightarrow> bool" where
  "spent db t =
     (case find (\<lambda>r. token r = t) (refreshToken_table db) of
        None \<Rightarrow> False
      | Some st \<Rightarrow> revokedAt st \<noteq> None \<and> list_ex (\<lambda>u. user_id u = userId st) (user_table db))"

text \<open>How the service changes a database: no user id disappears, and the credential table
  is the old one with rows rewritten in place (token and owner kept, a revocation never
  undone) and new rows added at the end.\<close>

definition evolves :: "database \<Rightarrow> database \<Rightarrow> bool" where
  "evolves db db' =
     (user_id ` set (user_table db) \<subseteq> user_id ` set (user_table db') \<and>
      (\<exists>g ys. refreshToken_table db' = map g (refreshToken_table db) @ ys \<and>
         (\<forall>x. token (g x) = token x \<and> userId (g x) = userId x \<and>
              (revokedAt x \<noteq> None \<longrightarrow> revokedAt (g x) \<noteq> None))))"

section \<open>Scenarios\<close>

text \<open>Concrete values for the scenarios the properties are exercised on: one Google user
  with one outstanding credential \<open>R1\<close>, a configuration with the default durations, and
  collaborators that accept exactly one identity token.\<close>

definition ex_user :: User where
  "ex_user =
     \<lparr>user_id = ''u1'', email = ''a@b.com'', password = None, provider = ''google'',
      providerId = Some ''g-123'', firstName = Some ''Ann'', lastName = None,
      avatarUrl = None, role = USER, hasCompletedOnboarding = False, createdAt = 0,
      updatedAt = 0, deletedAt = None\<rparr>"

definition ex_token :: RefreshToken where
  "ex_token =
     \<lparr>rt_id = ''t1'', token = ''R1'', userId = ''u1'', expiresAt = 604800000,
      rt_createdAt = 0, revokedAt = None\<rparr>"

definition ex_db :: database where
  "ex_db = \<lparr>user_table = [ex_user], refreshToken_table = [ex_token]\<rparr>"

definition ex_config :: config where
  "ex_config =
     \<lparr>jwt_secret = Some ''secret'', jwt_expiresIn = Some ''15m'',
      jwt_refreshExpiresIn = Some ''7d'', firebase_webClientId = Some ''web'',
      firebase_iosClientId = Some ''ios''\<rparr>"

definition ex_claims :: GoogleUserInfo where
  "ex_claims =
     \<lparr>g_aud = ''web'', g_sub = ''g-123'', g_email = Some ''a@b.com'',
      g_given_name = Some ''Ann'', g_family_name = None, g_picture = None\<rparr>"

definition ex_deps :: deps where
  "ex_deps =
     \<lparr>jwtService_sign = (\<lambda>p s n. Some (''jwt.'' @ sub p)),
      bcrypt_hash = (\<lambda>pw. ''h:'' @ pw),
      bcrypt_compare = (\<lambda>pw h. h = ''h:'' @ pw),
      tokeninfo = (\<lambda>t. if t = ''id-token'' then Some ex_claims else None)\<rparr>"

definition ex_fresh :: fresh where
  "ex_fresh = \<lparr>f_now = 1000, f_id = ''t2'', f_token = ''R2''\<rparr>"

text \<open>The same database after the user has been soft-deleted, and collaborators whose
  provider returns claims without an e-mail.\<close>

definition ex_db_deleted :: database where
  "ex_db_deleted =
     \<lparr>user_table = [ex_user\<lparr>deletedAt := Some 5\<rparr>], refreshToken_table = [ex_token]\<rparr>"

definition ex_deps_no_email :: deps where
  "ex_deps_no_email = ex_deps\<lparr>tokeninfo := (\<lambda>t. Some (ex_claims\<lparr>g_email := None\<rparr>))\<rparr>"


definition ex_token_other :: RefreshToken where
  "ex_token_other =
     \<lparr>rt_id = ''t9'', token = ''R9'', userId = ''u1'', expiresAt = 604800000,
      rt_createdAt = 0, revokedAt = None\<rparr>"

definition ex_db_two :: database where
  "ex_db_two = \<lparr>user_table = [ex_user], refreshToken_table = [ex_token, ex_token_other]\<rparr>"

section \<open>Client: the session cache\<close>

text \<open>The state of the store. The client's \<open>User\<close> is the profile the backend returned.
  The tokens are optional strings: \<open>null\<close> at the start, and the refresh handler can store
  an \<open>undefined\<close> it read from a response.\<close>

record AuthState =
  s_user :: "UserView option"
  s_accessToken :: "string option"
  s_refreshToken :: "string option"
  s_isAuthenticated :: bool
  s_isLoading :: bool
  s_hasHydrated :: bool

definition initial_store :: AuthState where
  "initial_store =
     \<lparr>s_user = None, s_accessToken = None, s_refreshToken = None, s_isAuthenticated = False,
      s_isLoading = False, s_hasHydrated = False\<rparr>"

definition store_login :: "AuthState \<Rightarrow> UserView \<Rightarrow> string option \<Rightarrow> string option \<Rightarrow> AuthState" where
  "store_login st u access refresh =
     st\<lparr>s_user := Some u, s_accessToken := access, s_refreshToken := refresh,
        s_isAuthenticated := True\<rparr>"

text \<open>\<open>logout\<close> of the store: the provider sign-out swallows its own errors, then the four
  session fields are cleared.\<close>

definition store_logout :: "AuthState \<Rightarrow> AuthState" where
  "store_logout st =
     st\<lparr>s_user := None, s_accessToken := None, s_refreshToken := None,
        s_isAuthenticated := False\<rparr>"

definition setAccessToken :: "AuthState \<Rightarrow> string option \<Rightarrow> AuthState" where
  "setAccessToken st t = st\<lparr>s_accessToken := t\<rparr>"

definition setHasHydrated :: "AuthState \<Rightarrow> bool \<Rightarrow> AuthState" where
  "setHasHydrated st b = st\<lparr>s_hasHydrated := b\<rparr>"

text \<open>The persist middleware merges the four persisted fields into the store; the
  callback of \<open>onRehydrateStorage\<close> sets the hydration flag afterwards, in a second
  update.\<close>

definition rehydrate :: "AuthState \<Rightarrow> UserView option \<Rightarrow> string option \<Rightarrow> string option \<Rightarrow> bool
    \<Rightarrow> AuthState" where
  "rehydrate st u access refresh authenticated =
     st\<lparr>s_user := u, s_accessToken := access, s_refreshToken := refresh,
        s_isAuthenticated := authenticated\<rparr>"

section \<open>Client: the request pipeline\<close>

text \<open>A request configuration: the fields the interceptors read or write. \<open>retry\<close> is the
  \<open>_retry\<close> mark, absent (false) on a new request.\<close>

record request_config =
  url :: string
  authorization :: "string option"
  retry :: bool

text \<open>A response body is wrapped in the backend's envelope \<open>{ data, success, timestamp }\<close>
  or not; the success handler unwraps the envelope.\<close>

datatype 'a payload = Envelope 'a | Plain 'a

fun unwrap :: "'a payload \<Rightarrow> 'a" where
  "unwrap (Envelope x) = x"
| "unwrap (Plain x) = x"

text \<open>What the transport gives for one send: a response with its status, or no response
  at all (a network error).\<close>

datatype 'a http_result = Responded nat "'a payload" | NoResponse

text \<open>The answer of \<open>axios.post(API_URL/auth/refresh)\<close>, sent outside the \<open>api\<close> instance
  and so past its interceptors: a 2xx response with the two fields read from its data
  (\<open>None\<close>: the field is not there), or anything that throws at the call or the
  destructuring.\<close>

datatype refresh_result = RefreshOk "string option" "string option" | RefreshFailed

text \<open>The network: the result of the \<open>attempt\<close>-th send of a logical request, and the
  refresh endpoint.\<close>

record 'a net =
  transport :: "nat \<Rightarrow> request_config \<Rightarrow> 'a http_result"
  refresh_endpoint :: "string \<Rightarrow> refresh_result"

datatype 'a outcome = Resolved nat 'a | Rejected "'a http_result"

datatype event = Sent request_config | RefreshCall string | LoggedOut

text \<open>The request interceptor.\<close>

definition attach_token :: "AuthState \<Rightarrow> request_config \<Rightarrow> request_config" where
  "attach_token st config =
     (case s_accessToken st of
        None \<Rightarrow> config
      | Some t \<Rightarrow> if t = [] then config else config\<lparr>authorization := Some (''Bearer '' @ t)\<rparr>)"

text \<open>axios resolves a response whose status is 2xx and rejects every other result.\<close>

definition fulfilled :: "'a http_result \<Rightarrow> (nat \<times> 'a) option" where
  "fulfilled res =
     (case res of
        Responded status body \<Rightarrow>
          if 200 \<le> status \<and> status < 300 then Some (status, unwrap body) else None
      | NoResponse \<Rightarrow> None)"

text \<open>\<open>error.response?.status\<close>.\<close>

definition error_status :: "'a http_result \<Rightarrow> nat option" where
  "error_status res = (case res of Responded status body \<Rightarrow> Some status | NoResponse \<Rightarrow> None)"

text \<open>The \<open>try\<close> block of the error handler up to the replay: the events, the store it
  leaves, and whether it threw or reached the replay with the access token it read.\<close>

datatype refreshed = Threw | Renewed "string option"

definition try_refresh :: "'a net \<Rightarrow> AuthState \<Rightarrow> event list \<times> AuthState \<times> refreshed" where
  "try_refresh nw st =
     (case s_refreshToken st of
        None \<Rightarrow> ([], st, Threw)
      | Some rt \<Rightarrow>
          if rt = [] then ([], st, Threw)
          else
            (case refresh_endpoint nw rt of
               RefreshFailed \<Rightarrow> ([RefreshCall rt], st, Threw)
             | RefreshOk access new_refresh \<Rightarrow>
                 (case s_user (setAccessToken st access) of
                    None \<Rightarrow> ([RefreshCall rt], setAccessToken st access, Threw)
                  | Some u \<Rightarrow>
                      ([RefreshCall rt],
                       store_login (setAccessToken st access) u access new_refresh,
                       Renewed access))))"

text \<open>One call of the \<open>api\<close> instance: request interceptor, send, then the success handler
  or the error handler. The replay \<open>api(originalRequest)\<close> is the recursive call; its
  rejection is not caught by the handler's \<open>catch\<close>, since the promise is returned without
  \<open>await\<close>.\<close>

function api ::
  "'a net \<Rightarrow> AuthState \<Rightarrow> nat \<Rightarrow> request_config \<Rightarrow> AuthState \<times> event list \<times> 'a outcome" where
  "api nw st attempt config =
     (let cfg = attach_token st config; res = transport nw attempt cfg in
      case fulfilled res of
        Some (status, data) \<Rightarrow> (st, [Sent cfg], Resolved status data)
      | None \<Rightarrow>
          if error_status res = Some 401 \<and> \<not> retry cfg then
            (case try_refresh nw st of
               (evs, st1, Renewed access) \<Rightarrow>
                 (case api nw st1 (Suc attempt)
                         (cfg\<lparr>retry := True,
                              authorization := Some (''Bearer '' @ show_opt access)\<rparr>) of
                    (st2, evs2, out) \<Rightarrow> (st2, Sent cfg # evs @ evs2, out))
             | (evs, st1, Threw) \<Rightarrow>
                 (store_logout st1, Sent cfg # evs @ [LoggedOut], Rejected res))
          else (st, [Sent cfg], Rejected res))"
  by pat_completeness auto
termination
  by (relation "measure (\<lambda>(nw, st, attempt, config). if retry config then 0 else 1)")
    (auto simp: attach_token_def split: option.splits if_splits)

definition refresh_calls :: "event list \<Rightarrow> nat" where
  "refresh_calls evs = length (filter (\<lambda>e. case e of RefreshCall t \<Rightarrow> True | _ \<Rightarrow> False) evs)"

definition sends :: "event list \<Rightarrow> nat" where
  "sends evs = length (filter (\<lambda>e. case e of Sent c \<Rightarrow> True | _ \<Rightarrow> False) evs)"

text \<open>A scenario for the pipeline: a signed-in client, a network that answers every send
  with 401, and a refresh endpoint that accepts the stored refresh token.\<close>

definition ex_store :: AuthState where
  "ex_store =
     \<lparr>s_user = Some (select_user ex_user), s_accessToken = Some ''expired'',
      s_refreshToken = Some ''validR'', s_isAuthenticated = True, s_isLoading = False,
      s_hasHydrated = True\<rparr>"

definition ex_request :: request_config where
  "ex_request = \<lparr>url = ''/auth/me'', authorization = None, retry = False\<rparr>"

definition ex_net_401 :: "unit net" where
  "ex_net_401 =
     \<lparr>transport = (\<lambda>attempt c. Responded 401 (Plain ())),
      refresh_endpoint =
        (\<lambda>rt. if rt = ''validR'' then RefreshOk (Some ''A2'') (Some ''R2'') else RefreshFailed)\<rparr>"

section \<open>Client: the entry screen\<close>

datatype route = TabsHome | OnboardingFlow | AuthLogin

text \<open>The callback of the timer, closed over the values of the render that set it.\<close>

definition redirect :: "bool \<Rightarrow> UserView option \<Rightarrow> route" where
  "redirect isAuthenticated user =
     (case user of
        None \<Rightarrow> AuthLogin
      | Some u \<Rightarrow>
          if isAuthenticated
          then (if v_hasCompletedOnboarding u then TabsHome else OnboardingFlow)
          else AuthLogin)"

text \<open>The navigation effect of \<open>Index\<close>: it returns early, setting no timer, unless the
  layout is ready and the store has hydrated; otherwise it sets the timer, here the route
  the timer will replace the screen with.\<close>

definition index_effect :: "bool \<Rightarrow> bool \<Rightarrow> bool \<Rightarrow> UserView option \<Rightarrow> route option" where
  "index_effect isLayoutReady hasHydrated isAuthenticated user =
     (if \<not> isLayoutReady \<or> \<not> hasHydrated then None
      else Some (redirect isAuthenticated user))"

text \<open>The mounted screen: the store it subscribes to, whether the root navigation state
  has its key, the component's own flag, the pending timer and the calls of
  \<open>router.replace\<close> made so far.\<close>

record index_screen =
  store :: AuthState
  navigationKey :: bool
  isLayoutReady :: bool
  timer :: "route option"
  replaced :: "route list"

text \<open>What can happen to a mounted screen: the store is updated (the flag says that the
  user object is a new reference, which alone re-runs the effect), the root navigation
  state gets its key, or the timer's 100 ms run out.\<close>

datatype index_event = StoreUpdate AuthState bool | NavigationReady | TimerFires

text \<open>After a change the component renders again: the first effect raises
  \<open>isLayoutReady\<close> once the key is there, and the navigation effect, when one of its
  dependencies has changed, clears its timer and runs again.\<close>

definition effect_deps :: "index_screen \<Rightarrow> bool \<times> bool \<times> bool \<times> UserView option" where
  "effect_deps s =
     (isLayoutReady s, s_hasHydrated (store s), s_isAuthenticated (store s), s_user (store s))"

definition rerender :: "index_screen \<Rightarrow> bool \<Rightarrow> index_screen \<Rightarrow> index_screen" where
  "rerender before new_reference s =
     (let s1 = s\<lparr>isLayoutReady := isLayoutReady s \<or> navigationKey s\<rparr> in
      if effect_deps s1 \<noteq> effect_deps before \<or> new_reference
      then s1\<lparr>timer := index_effect (isLayoutReady s1) (s_hasHydrated (store s1))
                          (s_isAuthenticated (store s1)) (s_user (store s1))\<rparr>
      else s1)"

definition mount :: "AuthState \<Rightarrow> bool \<Rightarrow> index_screen" where
  "mount st key =
     \<lparr>store = st, navigationKey = key, isLayoutReady = key,
      timer = index_effect key (s_hasHydrated st) (s_isAuthenticated st) (s_user st),
      replaced = []\<rparr>"

fun step :: "index_screen \<Rightarrow> index_event \<Rightarrow> index_screen" where
  "step s (StoreUpdate st new_reference) = rerender s new_reference (s\<lparr>store := st\<rparr>)"
| "step s NavigationReady = rerender s False (s\<lparr>navigationKey := True\<rparr>)"
| "step s TimerFires =
     (case timer s of
        None \<Rightarrow> s
      | Some r \<Rightarrow> s\<lparr>timer := None, replaced := replaced s @ [r]\<rparr>)"

text \<open>An event that leaves the hydration flag down.\<close>

fun before_hydration :: "index_event \<Rightarrow> bool" where
  "before_hydration (StoreUpdate st new_reference) = (\<not> s_hasHydrated st)"
| "before_hydration NavigationReady = True"
| "before_hydration TimerFires = True"

section \<open>Properties of the expiry durations\<close>

text \<open>The regular expression accepts exactly the strings made of one or more decimal
  digits and one final unit letter.\<close>

lemma expiry_match_iff:
  "(\<exists>ds u. s = ds @ [u] \<and> ds \<noteq> [] \<and> (\<forall>c\<in>set ds. c \<in> set ''0123456789'') \<and> u \<in> set ''dhms'')
     \<longleftrightarrow> expiry_match s \<noteq> None"
proof (cases "s = []")
  case True
  then show ?thesis by (simp add: expiry_match_def)
next
  case False
  then have s: "s = butlast s @ [last s]" by simp
  show ?thesis
  proof
    assume "\<exists>ds u. s = ds @ [u] \<and> ds \<noteq> [] \<and> (\<forall>c\<in>set ds. c \<in> set ''0123456789'') \<and> u \<in> set ''dhms''"
    then obtain ds u where h: "s = ds @ [u]" "ds \<noteq> []"
        "\<forall>c\<in>set ds. c \<in> set ''0123456789''" "u \<in> set ''dhms''"
      by blast
    from h(1) have "butlast s = ds" "last s = u" by simp_all
    with h(2,3,4) False show "expiry_match s \<noteq> None"
      by (simp add: expiry_match_def is_digit_def is_unit_def list_all_iff)
  next
    assume "expiry_match s \<noteq> None"
    then have "butlast s \<noteq> []" "list_all is_digit (butlast s)" "is_unit (last s)"
      by (auto simp: expiry_match_def split: if_splits)
    then have "butlast s \<noteq> [] \<and> (\<forall>c\<in>set (butlast s). c \<in> set ''0123456789'')
        \<and> last s \<in> set ''dhms''"
      by (simp add: is_digit_def is_unit_def list_all_iff)
    with s show "\<exists>ds u. s = ds @ [u] \<and> ds \<noteq> [] \<and> (\<forall>c\<in>set ds. c \<in> set ''0123456789'')
        \<and> u \<in> set ''dhms''"
      by blast
  qed
qed

lemma parseExpiryToSeconds_defaults:
  "parseExpiryToSeconds ''15m'' = 900" "parseExpiryToSeconds ''7d'' = 604800"
  by (simp_all add: parseExpiryToSeconds_def expiry_match_def is_digit_def is_unit_def
      parseInt10_def digit_val_def)

text \<open>
  C10, as the claim states it, fails at the empty string: it does not match the pattern,
  and \<open>parseExpiryToSeconds\<close> maps it to 900, but as the configured refresh duration it is
  falsy, so \<open>|| '7d'\<close> replaces it before the parse and the refresh credential lives seven
  days, not 900 seconds.
\<close>

theorem refreshSeconds_empty_counterexample:
  "expiry_match '''' = None \<and> parseExpiryToSeconds '''' = 900
   \<and> refreshSeconds \<lparr>jwt_secret = Some ''k'', jwt_expiresIn = Some '''',
         jwt_refreshExpiresIn = Some '''', firebase_webClientId = None,
         firebase_iosClientId = None\<rparr> = 604800"
  by (simp add: refreshSeconds_def or_default_def parseExpiryToSeconds_defaults)
    (simp add: parseExpiryToSeconds_def expiry_match_def)

text \<open>
  C10 (amended): for every string that is not one or more decimal digits followed by one
  of the unit letters d, h, m, s, \<open>parseExpiryToSeconds\<close> returns 900. Consequently the
  access-token lifetime (in \<open>generateTokens\<close> and in the \<open>JwtModule\<close> factory) is 900
  seconds whenever the configured duration is such a string, and the refresh-credential
  lifetime is 900 seconds whenever the configured duration is such a string and is not
  empty. Nothing fails and the configuration is not rejected: the lifetimes are total
  functions of the configuration.
\<close>

theorem parseExpiryToSeconds_malformed:
  assumes "\<nexists>ds u. s = ds @ [u] \<and> ds \<noteq> [] \<and> (\<forall>c\<in>set ds. c \<in> set ''0123456789'')
             \<and> u \<in> set ''dhms''"
  shows "parseExpiryToSeconds s = 900
       \<and> (jwt_expiresIn cfg = Some s \<longrightarrow> accessExpiresIn cfg = 900 \<and> jwtModule_expiresIn cfg = 900)
       \<and> (jwt_refreshExpiresIn cfg = Some s \<and> s \<noteq> [] \<longrightarrow> refreshSeconds cfg = 900)"
proof -
  from assms have m: "expiry_match s = None" using expiry_match_iff [of s] by blast
  have d: "expiry_match ''15m'' = Some (''15'', CHR ''m'')"
    by (simp add: expiry_match_def is_digit_def is_unit_def)
  have p: "parseExpiryToSeconds s = 900" using m by (simp add: parseExpiryToSeconds_def)
  have a: "jwt_expiresIn cfg = Some s \<Longrightarrow> accessExpiresIn cfg = 900"
    using p parseExpiryToSeconds_defaults(1) by (simp add: accessExpiresIn_def or_default_def)
  have b: "jwt_expiresIn cfg = Some s \<Longrightarrow> jwtModule_expiresIn cfg = 900"
    using m d by (simp add: jwtModule_expiresIn_def or_default_def parseInt10_def digit_val_def)
  have c: "jwt_refreshExpiresIn cfg = Some s \<Longrightarrow> s \<noteq> [] \<Longrightarrow> refreshSeconds cfg = 900"
    using p by (simp add: refreshSeconds_def or_default_def)
  from p a b c show ?thesis by blast
qed

theorem parseExpiryToSeconds_malformed_witness:
  "(\<nexists>ds u. ''1w'' = ds @ [u] \<and> ds \<noteq> [] \<and> (\<forall>c\<in>set ds. c \<in> set ''0123456789'')
       \<and> u \<in> set ''dhms'')
   \<and> parseExpiryToSeconds ''1w'' = 900
   \<and> parseExpiryToSeconds ''15min'' = 900
   \<and> parseExpiryToSeconds ''900'' = 900
   \<and> accessExpiresIn \<lparr>jwt_secret = Some ''k'', jwt_expiresIn = Some ''1w'',
         jwt_refreshExpiresIn = Some ''1w'', firebase_webClientId = None,
         firebase_iosClientId = None\<rparr> = 900
   \<and> jwtModule_expiresIn \<lparr>jwt_secret = Some ''k'', jwt_expiresIn = Some ''1w'',
         jwt_refreshExpiresIn = Some ''1w'', firebase_webClientId = None,
         firebase_iosClientId = None\<rparr> = 900
   \<and> refreshSeconds \<lparr>jwt_secret = Some ''k'', jwt_expiresIn = Some ''1w'',
         jwt_refreshExpiresIn = Some ''1w'', firebase_webClientId = None,
         firebase_iosClientId = None\<rparr> = 900"
proof -
  have h1: "\<nexists>ds u. ''1w'' = ds @ [u] \<and> ds \<noteq> [] \<and> (\<forall>c\<in>set ds. c \<in> set ''0123456789'')
       \<and> u \<in> set ''dhms''"
    using expiry_match_iff [of "''1w''"] by (simp add: expiry_match_def is_unit_def)
  have h2: "\<nexists>ds u. ''15min'' = ds @ [u] \<and> ds \<noteq> [] \<and> (\<forall>c\<in>set ds. c \<in> set ''0123456789'')
       \<and> u \<in> set ''dhms''"
    using expiry_match_iff [of "''15min''"] by (simp add: expiry_match_def is_unit_def)
  have h3: "\<nexists>ds u. ''900'' = ds @ [u] \<and> ds \<noteq> [] \<and> (\<forall>c\<in>set ds. c \<in> set ''0123456789'')
       \<and> u \<in> set ''dhms''"
    using expiry_match_iff [of "''900''"] by (simp add: expiry_match_def is_unit_def)
  show ?thesis
    using h1
      parseExpiryToSeconds_malformed [OF h1, of "\<lparr>jwt_secret = Some ''k'',
         jwt_expiresIn = Some ''1w'', jwt_refreshExpiresIn = Some ''1w'',
         firebase_webClientId = None, firebase_iosClientId = None\<rparr>"]
      parseExpiryToSeconds_malformed [OF h2, of ex_config]
      parseExpiryToSeconds_malformed [OF h3, of ex_config]
    by simp
qed

section \<open>Lookups in rewritten and extended tables\<close>

lemma find_map_same:
  assumes "\<And>x. P (f x) = P x"
  shows "find P (map f xs) = map_option f (find P xs)"
  by (induction xs) (simp_all add: assms)

lemma find_append_Some:
  "find P xs = Some x \<Longrightarrow> find P (xs @ ys) = Some x"
  by (induction xs) (auto split: if_splits)

lemma find_append_None:
  "find P xs = None \<Longrightarrow> find P (xs @ ys) = find P ys"
  by (induction xs) (auto split: if_splits)

lemma find_None_list_ex: "(find P xs = None) = (\<not> list_ex P xs)"
  by (auto simp: find_None_iff list_ex_iff)

lemma list_ex_user_id: "list_ex (\<lambda>u. user_id u = x) us = (x \<in> user_id ` set us)"
  by (auto simp: list_ex_iff)

lemma evolves_refl: "evolves db db"
proof -
  have "refreshToken_table db = map id (refreshToken_table db) @ []" by simp
  then show ?thesis unfolding evolves_def by (intro conjI exI[of _ id] exI[of _ "[]"]) auto
qed

lemma evolves_trans:
  assumes "evolves a b" "evolves b c"
  shows "evolves a c"
proof -
  from assms(1) obtain g ys where
    1: "user_id ` set (user_table a) \<subseteq> user_id ` set (user_table b)"
       "refreshToken_table b = map g (refreshToken_table a) @ ys"
       "\<forall>x. token (g x) = token x \<and> userId (g x) = userId x \<and>
              (revokedAt x \<noteq> None \<longrightarrow> revokedAt (g x) \<noteq> None)"
    unfolding evolves_def by blast
  from assms(2) obtain h zs where
    2: "user_id ` set (user_table b) \<subseteq> user_id ` set (user_table c)"
       "refreshToken_table c = map h (refreshToken_table b) @ zs"
       "\<forall>x. token (h x) = token x \<and> userId (h x) = userId x \<and>
              (revokedAt x \<noteq> None \<longrightarrow> revokedAt (h x) \<noteq> None)"
    unfolding evolves_def by blast
  have t: "refreshToken_table c = map (h \<circ> g) (refreshToken_table a) @ (map h ys @ zs)"
    using 1(2) 2(2) by simp
  have p: "\<forall>x. token ((h \<circ> g) x) = token x \<and> userId ((h \<circ> g) x) = userId x \<and>
              (revokedAt x \<noteq> None \<longrightarrow> revokedAt ((h \<circ> g) x) \<noteq> None)"
    using 1(3) 2(3) by simp
  from 1(1) 2(1) have "user_id ` set (user_table a) \<subseteq> user_id ` set (user_table c)" by blast
  with t p show ?thesis unfolding evolves_def by blast
qed

lemma spent_evolves:
  assumes "spent db t" "evolves db db'"
  shows "spent db' t"
proof -
  from assms(1) obtain st where
    st: "find (\<lambda>r. token r = t) (refreshToken_table db) = Some st" "revokedAt st \<noteq> None"
        "userId st \<in> user_id ` set (user_table db)"
    by (auto simp: spent_def list_ex_user_id split: option.splits)
  from assms(2) obtain g ys where
    g: "user_id ` set (user_table db) \<subseteq> user_id ` set (user_table db')"
       "refreshToken_table db' = map g (refreshToken_table db) @ ys"
       "\<forall>x. token (g x) = token x \<and> userId (g x) = userId x \<and>
              (revokedAt x \<noteq> None \<longrightarrow> revokedAt (g x) \<noteq> None)"
    unfolding evolves_def by blast
  have "find (\<lambda>r. token r = t) (map g (refreshToken_table db)) = Some (g st)"
    using st(1) g(3) by (simp add: find_map_same)
  then have "find (\<lambda>r. token r = t) (refreshToken_table db') = Some (g st)"
    using g(2) by (simp add: find_append_Some)
  moreover have "revokedAt (g st) \<noteq> None" using st(2) g(3) by blast
  moreover have "userId (g st) \<in> user_id ` set (user_table db')" using st(3) g(1,3) by auto
  ultimately show ?thesis by (simp add: spent_def list_ex_user_id)
qed

lemma evolves_tokens_map:
  assumes "user_table db' = user_table db"
    and "refreshToken_table db' = map g (refreshToken_table db)"
    and "\<And>x. token (g x) = token x \<and> userId (g x) = userId x \<and>
              (revokedAt x \<noteq> None \<longrightarrow> revokedAt (g x) \<noteq> None)"
  shows "evolves db db'"
proof -
  have "refreshToken_table db' = map g (refreshToken_table db) @ []" using assms(2) by simp
  then show ?thesis unfolding evolves_def
    by (intro conjI exI[of _ g] exI[of _ "[]"]) (simp_all add: assms)
qed

lemma user_ids_map:
  assumes "\<And>x. user_id (f x) = user_id x"
  shows "user_id ` set (map f us) = user_id ` set us"
proof -
  have "user_id ` set (map f us) = (\<lambda>x. user_id (f x)) ` set us" by (simp add: image_image)
  then show ?thesis by (simp add: assms)
qed

lemma evolves_tokens_append:
  assumes "user_table db' = user_table db"
    and "refreshToken_table db' = refreshToken_table db @ ys"
  shows "evolves db db'"
proof -
  have "refreshToken_table db' = map id (refreshToken_table db) @ ys" using assms(2) by simp
  then show ?thesis unfolding evolves_def using assms(1)
    by (intro conjI exI[of _ id] exI[of _ ys]) auto
qed

lemma evolves_users:
  assumes "refreshToken_table db' = refreshToken_table db"
    and "user_id ` set (user_table db) \<subseteq> user_id ` set (user_table db')"
  shows "evolves db db'"
proof -
  have "refreshToken_table db' = map id (refreshToken_table db) @ []" using assms(1) by simp
  then show ?thesis unfolding evolves_def using assms(2)
    by (intro conjI exI[of _ id] exI[of _ "[]"]) auto
qed

lemma generateTokens_cases:
  assumes "generateTokens d cfg fr db uid em rl = (db', out)"
  shows "user_table db' = user_table db \<and>
         (db' = db \<and> (\<exists>e. out = Inl e \<and> (\<forall>m. e \<noteq> UnauthorizedException m))
          \<or> (\<exists>row a. refreshToken_table db' = refreshToken_table db @ [row]
                \<and> out = Inr \<lparr>accessToken = a, refreshToken = f_token fr\<rparr>
                \<and> token row = f_token fr \<and> userId row = uid \<and> revokedAt row = None
                \<and> \<not> list_ex (\<lambda>r. token r = f_token fr) (refreshToken_table db)))"
  using assms
  by (auto simp: generateTokens_def refreshToken_create_def split: option.splits if_splits)

lemma generateTokens_evolves: "evolves db (fst (generateTokens d cfg fr db uid em rl))"
proof -
  obtain db' out where r: "generateTokens d cfg fr db uid em rl = (db', out)" by force
  from generateTokens_cases [OF r] show ?thesis
    using r by (auto intro: evolves_refl evolves_tokens_append)
qed

lemma revoke_evolves: "evolves db (refreshToken_revoke db rid now)"
  by (rule evolves_tokens_map [where g = "\<lambda>r. if rt_id r = rid then r\<lparr>revokedAt := Some now\<rparr> else r"])
    (simp_all add: refreshToken_revoke_def)

lemma updateMany_evolves: "evolves db (refreshToken_updateMany db t now)"
  by (rule evolves_tokens_map [where g = "\<lambda>r. if token r = t then r\<lparr>revokedAt := Some now\<rparr> else r"])
    (simp_all add: refreshToken_updateMany_def)

lemma refreshTokens_evolves: "evolves db (fst (refreshTokens d cfg now nr fr db t))"
  by (auto simp: refreshTokens_def evolves_refl split: sum.splits option.splits
      intro: evolves_trans [OF revoke_evolves generateTokens_evolves])

lemma logout_evolves: "evolves db (fst (logout now db t))"
  by (simp add: logout_def updateMany_evolves)

lemma user_upsert_evolves:
  assumes "user_upsert db now new_id g e = Inr (db', u)"
  shows "evolves db db'"
proof (rule evolves_users)
  show "refreshToken_table db' = refreshToken_table db"
    using assms by (auto simp: user_upsert_def user_create_def split: option.splits sum.splits if_splits)
  show "user_id ` set (user_table db) \<subseteq> user_id ` set (user_table db')"
  proof (cases "find (\<lambda>u. email u = e) (user_table db)")
    case None
    then show ?thesis using assms
      by (auto simp: user_upsert_def user_create_def split: sum.splits if_splits)
  next
    case (Some x)
    then have "user_table db' = map (\<lambda>x. if email x = e then google_update g now x else x)
        (user_table db)"
      using assms by (auto simp: user_upsert_def split: if_splits)
    moreover have "\<And>x. user_id (if email x = e then google_update g now x else x) = user_id x"
      by (simp add: google_update_def)
    ultimately show ?thesis using user_ids_map [of "\<lambda>x. if email x = e then google_update g now x else x" "user_table db"]
      by simp
  qed
qed

lemma generateTokens_evolves':
  "generateTokens d cfg fr db uid em rl = (db', out) \<Longrightarrow> evolves db db'"
  using generateTokens_evolves [of db d cfg fr uid em rl] by simp

lemma loginWithGoogle_evolves: "evolves db (fst (loginWithGoogle d cfg now new_id fr db tok))"
  by (auto simp: loginWithGoogle_def evolves_refl split: sum.splits option.splits prod.splits
      dest!: user_upsert_evolves generateTokens_evolves' intro: evolves_trans)

lemma user_create_evolves:
  assumes "user_create db row = Inr db'"
  shows "evolves db db'"
  using assms
  by (intro evolves_users) (auto simp: user_create_def split: if_splits)

lemma register_evolves:
  "evolves db (fst (register d cfg now new_id fr db e pw fn ln))"
  by (auto simp: register_def Let_def evolves_refl split: sum.splits option.splits prod.splits
      dest!: user_create_evolves generateTokens_evolves' intro: evolves_trans)

lemma login_evolves: "evolves db (fst (login d cfg fr db e pw))"
  by (auto simp: login_def evolves_refl split: sum.splits option.splits prod.splits
      dest!: generateTokens_evolves')

lemma completeOnboarding_evolves: "evolves db (fst (completeOnboarding now db uid))"
proof (cases "find (\<lambda>u. user_id u = uid) (user_table db)")
  case None
  then show ?thesis by (simp add: completeOnboarding_def evolves_refl)
next
  case (Some u)
  define f :: "User \<Rightarrow> User" where "f = (\<lambda>x. if user_id x = uid
                          then x\<lparr>hasCompletedOnboarding := True, updatedAt := now\<rparr> else x)"
  have ids: "user_id ` set (map f (user_table db)) = user_id ` set (user_table db)"
    by (rule user_ids_map) (simp add: f_def)
  have tbl: "user_table (fst (completeOnboarding now db uid)) = map f (user_table db)"
    using Some by (simp add: completeOnboarding_def f_def)
  have rt: "refreshToken_table (fst (completeOnboarding now db uid)) = refreshToken_table db"
    using Some by (simp add: completeOnboarding_def)
  show ?thesis
  proof (rule evolves_users)
    show "refreshToken_table (fst (completeOnboarding now db uid)) = refreshToken_table db"
      by (rule rt)
    show "user_id ` set (user_table db)
        \<subseteq> user_id ` set (user_table (fst (completeOnboarding now db uid)))"
      by (simp only: tbl ids)
  qed
qed

lemma exec_evolves: "evolves db (exec d cfg db c)"
  by (cases c)
    (simp_all add: loginWithGoogle_evolves register_evolves login_evolves evolves_refl
      completeOnboarding_evolves refreshTokens_evolves logout_evolves)

lemma run_spent: "spent db t \<Longrightarrow> spent (foldl (exec d cfg) db cs) t"
proof (induction cs arbitrary: db)
  case Nil
  then show ?case by simp
next
  case (Cons c cs)
  from Cons.prems have "spent (exec d cfg db c) t"
    by (rule spent_evolves) (rule exec_evolves)
  then show ?case using Cons.IH by simp
qed

lemma refreshTokens_spent:
  assumes "spent db t"
  shows "refreshTokens d cfg now nr fr db t = (db, Inl (UnauthorizedException ''Invalid refresh token''))"
proof -
  from assms obtain st where
    st: "find (\<lambda>r. token r = t) (refreshToken_table db) = Some st" "revokedAt st \<noteq> None"
        "list_ex (\<lambda>u. user_id u = userId st) (user_table db)"
    by (auto simp: spent_def split: option.splits)
  from st(3) obtain u where "find (\<lambda>u. user_id u = userId st) (user_table db) = Some u"
    using find_None_list_ex [of "\<lambda>u. user_id u = userId st" "user_table db"] by auto
  with st(1,2) show ?thesis
    by (auto simp: refreshTokens_def refreshToken_findUnique_def)
qed

section \<open>Rotation of refresh credentials\<close>

lemma ex_lifetimes: "accessExpiresIn ex_config = 900" "refreshSeconds ex_config = 604800"
  by (simp_all add: accessExpiresIn_def refreshSeconds_def ex_config_def or_default_def
      parseExpiryToSeconds_defaults)

lemma ex_refresh:
  "refreshTokens ex_deps ex_config 500 600 ex_fresh ex_db ''R1'' =
     (\<lparr>user_table = [ex_user],
       refreshToken_table =
         [ex_token\<lparr>revokedAt := Some 600\<rparr>,
          \<lparr>rt_id = ''t2'', token = ''R2'', userId = ''u1'', expiresAt = 604801000,
           rt_createdAt = 1000, revokedAt = None\<rparr>]\<rparr>,
      Inr \<lparr>accessToken = ''jwt.u1'', refreshToken = ''R2''\<rparr>)"
  by (simp add: refreshTokens_def refreshToken_findUnique_def ex_db_def ex_token_def ex_user_def
      refreshToken_revoke_def generateTokens_def ex_deps_def ex_lifetimes refreshToken_create_def
      ex_fresh_def)

text \<open>
  C1: when \<open>refreshTokens\<close> succeeds on a credential \<open>r\<close>, the new refresh credential is
  a different token (a brand-new one), the row of \<open>r\<close> is revoked at the clock of the
  revocation, the new row is unrevoked and owned by the same user, and every later
  \<open>refreshTokens\<close> on \<open>r\<close>, after any sequence of calls of the service, whatever they
  draw from outside, fails with the 401 exception and leaves the database as it is: a
  refresh credential is never redeemed twice.
\<close>

theorem refreshTokens_single_use:
  assumes ok: "refreshTokens d cfg now now_revoke fr db r = (db1, Inr tk)"
  shows "refreshToken tk \<noteq> r
     \<and> (\<exists>old new.
          find (\<lambda>x. token x = r) (refreshToken_table db) = Some old \<and> revokedAt old = None
        \<and> find (\<lambda>x. token x = r) (refreshToken_table db1) = Some (old\<lparr>revokedAt := Some now_revoke\<rparr>)
        \<and> find (\<lambda>x. token x = refreshToken tk) (refreshToken_table db1) = Some new
        \<and> userId new = userId old \<and> revokedAt new = None)
     \<and> (\<forall>d' cfg' calls now' now_revoke' fr'.
          refreshTokens d' cfg' now' now_revoke' fr' (foldl (exec d' cfg') db1 calls) r =
            (foldl (exec d' cfg') db1 calls, Inl (UnauthorizedException ''Invalid refresh token'')))"
proof -
  from ok obtain st u where
    st: "find (\<lambda>x. token x = r) (refreshToken_table db) = Some st"
    and u: "find (\<lambda>u. user_id u = userId st) (user_table db) = Some u"
    and live: "revokedAt st = None"
    and gen: "generateTokens d cfg fr (refreshToken_revoke db (rt_id st) now_revoke)
                (user_id u) (email u) (role u) = (db1, Inr tk)"
    by (auto simp: refreshTokens_def refreshToken_findUnique_def
        split: option.splits sum.splits if_splits)
  define g :: "RefreshToken \<Rightarrow> RefreshToken"
    where "g = (\<lambda>x. if rt_id x = rt_id st then x\<lparr>revokedAt := Some now_revoke\<rparr> else x)"
  have gtok: "\<And>x. (token (g x) = r) = (token x = r)" by (simp add: g_def)
  have tbl0: "refreshToken_table (refreshToken_revoke db (rt_id st) now_revoke) =
      map g (refreshToken_table db)"
    by (simp add: refreshToken_revoke_def g_def)
  have usr0: "user_table (refreshToken_revoke db (rt_id st) now_revoke) = user_table db"
    by (simp add: refreshToken_revoke_def)
  from generateTokens_cases [OF gen] obtain row a where
    usr1: "user_table db1 = user_table db"
    and tbl1: "refreshToken_table db1 = map g (refreshToken_table db) @ [row]"
    and tk: "tk = \<lparr>accessToken = a, refreshToken = f_token fr\<rparr>"
    and row: "token row = f_token fr" "userId row = user_id u" "revokedAt row = None"
    and new: "\<not> list_ex (\<lambda>x. token x = f_token fr) (map g (refreshToken_table db))"
    by (auto simp: tbl0 usr0)
  have uid: "user_id u = userId st" using u by (auto simp: find_Some_iff)
  have f0: "find (\<lambda>x. token x = r) (map g (refreshToken_table db)) = Some (g st)"
    using st by (simp add: find_map_same [of "\<lambda>x. token x = r" g, OF gtok])
  have gst: "g st = st\<lparr>revokedAt := Some now_revoke\<rparr>" by (simp add: g_def)
  have f1: "find (\<lambda>x. token x = r) (refreshToken_table db1) = Some (st\<lparr>revokedAt := Some now_revoke\<rparr>)"
    using f0 by (simp add: tbl1 find_append_Some gst)
  have "g st \<in> set (map g (refreshToken_table db))" "token (g st) = r"
    using f0 by (auto simp: find_Some_iff)
  with new have ne: "f_token fr \<noteq> r" by (auto simp: list_ex_iff)
  have "find (\<lambda>x. token x = f_token fr) (map g (refreshToken_table db)) = None"
    using new by (simp add: find_None_list_ex)
  then have f2: "find (\<lambda>x. token x = f_token fr) (refreshToken_table db1) = Some row"
    by (simp add: tbl1 find_append_None row(1))
  have "list_ex (\<lambda>x. user_id x = userId st) (user_table db)"
    using u find_None_list_ex [of "\<lambda>x. user_id x = userId st" "user_table db"] by simp
  then have sp: "spent db1 r"
    by (simp add: spent_def f1 usr1)
  have later: "\<forall>d' cfg' calls now' now_revoke' fr'.
          refreshTokens d' cfg' now' now_revoke' fr' (foldl (exec d' cfg') db1 calls) r =
            (foldl (exec d' cfg') db1 calls, Inl (UnauthorizedException ''Invalid refresh token''))"
    using sp by (intro allI refreshTokens_spent run_spent)
  from ne f1 f2 st live row uid later show ?thesis by (simp add: tk)
qed

theorem refreshTokens_single_use_witness:
  "refreshTokens ex_deps ex_config 500 600 ex_fresh ex_db ''R1'' =
     (\<lparr>user_table = [ex_user],
       refreshToken_table =
         [ex_token\<lparr>revokedAt := Some 600\<rparr>,
          \<lparr>rt_id = ''t2'', token = ''R2'', userId = ''u1'', expiresAt = 604801000,
           rt_createdAt = 1000, revokedAt = None\<rparr>]\<rparr>,
      Inr \<lparr>accessToken = ''jwt.u1'', refreshToken = ''R2''\<rparr>)
   \<and> snd (refreshTokens ex_deps ex_config 700 800 \<lparr>f_now = 700, f_id = ''t3'', f_token = ''R3''\<rparr>
        \<lparr>user_table = [ex_user],
         refreshToken_table =
           [ex_token\<lparr>revokedAt := Some 600\<rparr>,
            \<lparr>rt_id = ''t2'', token = ''R2'', userId = ''u1'', expiresAt = 604801000,
             rt_createdAt = 1000, revokedAt = None\<rparr>]\<rparr> ''R1'') =
       Inl (UnauthorizedException ''Invalid refresh token'')"
proof -
  note w = refreshTokens_single_use [OF ex_refresh]
  from w have "refreshTokens ex_deps ex_config 700 800 \<lparr>f_now = 700, f_id = ''t3'', f_token = ''R3''\<rparr>
        (foldl (exec ex_deps ex_config) \<lparr>user_table = [ex_user],
         refreshToken_table =
           [ex_token\<lparr>revokedAt := Some 600\<rparr>,
            \<lparr>rt_id = ''t2'', token = ''R2'', userId = ''u1'', expiresAt = 604801000,
             rt_createdAt = 1000, revokedAt = None\<rparr>]\<rparr> []) ''R1'' =
       (foldl (exec ex_deps ex_config) \<lparr>user_table = [ex_user],
         refreshToken_table =
           [ex_token\<lparr>revokedAt := Some 600\<rparr>,
            \<lparr>rt_id = ''t2'', token = ''R2'', userId = ''u1'', expiresAt = 604801000,
             rt_createdAt = 1000, revokedAt = None\<rparr>]\<rparr> [], Inl (UnauthorizedException ''Invalid refresh token''))"
    by blast
  then show ?thesis using ex_refresh by simp
qed

text \<open>
  C2: on a database that satisfies the foreign key of the credential table,
  \<open>refreshTokens\<close> ends in a 401 exception exactly when no row has the token, or the row
  found is revoked, or its expiry is earlier than the clock of the check. In each of the
  three cases the outcome is the same value, the exception with the message
  \<open>Invalid refresh token\<close> and the database unchanged, so the caller cannot tell them
  apart; an unrevoked row whose expiry has passed is one of them.
\<close>

theorem refreshTokens_unauthorized_iff:
  assumes fk: "\<forall>x\<in>set (refreshToken_table db). userId x \<in> user_id ` set (user_table db)"
  shows "((\<exists>m. snd (refreshTokens d cfg now now_revoke fr db t) = Inl (UnauthorizedException m)) \<longleftrightarrow>
            (find (\<lambda>x. token x = t) (refreshToken_table db) = None
             \<or> (\<exists>st. find (\<lambda>x. token x = t) (refreshToken_table db) = Some st
                  \<and> (revokedAt st \<noteq> None \<or> expiresAt st < now))))
       \<and> ((find (\<lambda>x. token x = t) (refreshToken_table db) = None
             \<or> (\<exists>st. find (\<lambda>x. token x = t) (refreshToken_table db) = Some st
                  \<and> (revokedAt st \<noteq> None \<or> expiresAt st < now)))
            \<longrightarrow> refreshTokens d cfg now now_revoke fr db t =
                  (db, Inl (UnauthorizedException ''Invalid refresh token'')))"
proof (cases "find (\<lambda>x. token x = t) (refreshToken_table db)")
  case None
  then show ?thesis by (simp add: refreshTokens_def refreshToken_findUnique_def)
next
  case (Some st)
  then have "st \<in> set (refreshToken_table db)" by (auto simp: find_Some_iff)
  with fk have "list_ex (\<lambda>u. user_id u = userId st) (user_table db)"
    by (fastforce simp: list_ex_iff image_iff)
  then obtain u where u: "find (\<lambda>u. user_id u = userId st) (user_table db) = Some u"
    using find_None_list_ex [of "\<lambda>u. user_id u = userId st" "user_table db"] by auto
  show ?thesis
  proof (cases "revokedAt st \<noteq> None \<or> expiresAt st < now")
    case True
    with Some u show ?thesis
      by (auto simp: refreshTokens_def refreshToken_findUnique_def)
  next
    case False
    obtain db' out where gen: "generateTokens d cfg fr (refreshToken_revoke db (rt_id st) now_revoke)
                (user_id u) (email u) (role u) = (db', out)" by force
    from generateTokens_cases [OF gen] have "\<forall>m. out \<noteq> Inl (UnauthorizedException m)"
      by auto
    moreover have "refreshTokens d cfg now now_revoke fr db t = (db', out)"
      using Some u False gen by (simp add: refreshTokens_def refreshToken_findUnique_def)
    ultimately show ?thesis using Some False by simp
  qed
qed

lemma ex_db_find: "find (\<lambda>x. token x = ''R1'') (refreshToken_table ex_db) = Some ex_token"
  "find (\<lambda>x. token x = ''R0'') (refreshToken_table ex_db) = None"
  by (simp_all add: ex_db_def ex_token_def)

theorem refreshTokens_unauthorized_iff_witness:
  "refreshTokens ex_deps ex_config 604800001 604800002 ex_fresh ex_db ''R1'' =
     (ex_db, Inl (UnauthorizedException ''Invalid refresh token''))
   \<and> revokedAt ex_token = None \<and> expiresAt ex_token < 604800001
   \<and> refreshTokens ex_deps ex_config 500 600 ex_fresh ex_db ''R0'' =
     (ex_db, Inl (UnauthorizedException ''Invalid refresh token''))
   \<and> (\<nexists>m. snd (refreshTokens ex_deps ex_config 500 600 ex_fresh ex_db ''R1'') =
           Inl (UnauthorizedException m))"
proof -
  have fk: "\<forall>x\<in>set (refreshToken_table ex_db). userId x \<in> user_id ` set (user_table ex_db)"
    by (simp add: ex_db_def ex_token_def ex_user_def)
  have e: "revokedAt ex_token = None" "expiresAt ex_token = 604800000"
    by (simp_all add: ex_token_def)
  show ?thesis
    using refreshTokens_unauthorized_iff [OF fk, of ex_deps ex_config 604800001 604800002 ex_fresh "''R1''"]
      refreshTokens_unauthorized_iff [OF fk, of ex_deps ex_config 500 600 ex_fresh "''R0''"]
      refreshTokens_unauthorized_iff [OF fk, of ex_deps ex_config 500 600 ex_fresh "''R1''"]
    by (simp add: ex_db_find e)
qed

section \<open>Logout\<close>

text \<open>With the if-distribution over images the simplifier does not stop on the rewritten
  table, so it is switched off for this step.\<close>

lemma logout_revokes_matching:
  "\<forall>x\<in>set (refreshToken_table (fst (logout now db t))). token x = t \<longrightarrow> revokedAt x = Some now"
  by (simp add: logout_def refreshToken_updateMany_def del: if_image_distrib)

lemma ex_logout:
  "fst (logout 1000 ex_db ''R1'') =
     \<lparr>user_table = [ex_user], refreshToken_table = [ex_token\<lparr>revokedAt := Some 1000\<rparr>]\<rparr>"
  by (simp add: logout_def refreshToken_updateMany_def ex_db_def ex_token_def)

text \<open>
  C7, as the claim states it, fails where it calls the second \<open>logout\<close> a no-op: the
  second call succeeds, but it writes the revocation time again, so the database after it
  differs from the database before it whenever the clock has moved.
\<close>

theorem logout_twice_counterexample:
  "snd (logout 2000 (fst (logout 1000 ex_db ''R1'')) ''R1'') = Inr ()
   \<and> fst (logout 2000 (fst (logout 1000 ex_db ''R1'')) ''R1'') \<noteq> fst (logout 1000 ex_db ''R1'')
   \<and> map revokedAt (refreshToken_table (fst (logout 1000 ex_db ''R1''))) = [Some 1000]
   \<and> map revokedAt (refreshToken_table (fst (logout 2000 (fst (logout 1000 ex_db ''R1'')) ''R1'')))
       = [Some 2000]"
  by (simp add: ex_logout) (simp add: logout_def refreshToken_updateMany_def ex_token_def)

text \<open>
  C7 (amended): \<open>logout\<close> is total: for every token it returns success and leaves the
  users alone, and the credential table after it is the table before it, row by row, with
  every row of that token stamped as revoked at the clock of the call and every other row
  as it was; on an unknown token it changes nothing at all. A second \<open>logout\<close> of the
  same token succeeds too and leaves the same rows revoked, but it stamps the matching
  rows again with its own clock: the database after it is the one a single \<open>logout\<close> at
  the second clock gives, and is the database after the first call when both clocks read
  the same.
\<close>

theorem logout_total_idempotent:
  "snd (logout now db t) = Inr ()
   \<and> user_table (fst (logout now db t)) = user_table db
   \<and> refreshToken_table (fst (logout now db t)) =
       map (\<lambda>r. if token r = t then r\<lparr>revokedAt := Some now\<rparr> else r) (refreshToken_table db)
   \<and> (\<forall>x\<in>set (refreshToken_table (fst (logout now db t))). token x = t \<longrightarrow> revokedAt x = Some now)
   \<and> map (\<lambda>x. x\<lparr>revokedAt := None\<rparr>) (refreshToken_table (fst (logout now db t)))
       = map (\<lambda>x. x\<lparr>revokedAt := None\<rparr>) (refreshToken_table db)
   \<and> (t \<notin> token ` set (refreshToken_table db) \<longrightarrow> fst (logout now db t) = db)
   \<and> snd (logout now' (fst (logout now db t)) t) = Inr ()
   \<and> fst (logout now' (fst (logout now db t)) t) = fst (logout now' db t)
   \<and> fst (logout now (fst (logout now db t)) t) = fst (logout now db t)
   \<and> map (\<lambda>x. revokedAt x \<noteq> None) (refreshToken_table (fst (logout now' (fst (logout now db t)) t)))
       = map (\<lambda>x. revokedAt x \<noteq> None) (refreshToken_table (fst (logout now db t)))"
proof -
  have a: "refreshToken_table (fst (logout now db t)) =
       map (\<lambda>r. if token r = t then r\<lparr>revokedAt := Some now\<rparr> else r) (refreshToken_table db)"
    by (simp add: logout_def refreshToken_updateMany_def)
  have b: "map (\<lambda>x. x\<lparr>revokedAt := None\<rparr>) (refreshToken_table (fst (logout now db t)))
       = map (\<lambda>x. x\<lparr>revokedAt := None\<rparr>) (refreshToken_table db)"
    by (simp add: logout_def refreshToken_updateMany_def)
  have "map (\<lambda>r. if token r = t then r\<lparr>revokedAt := Some now\<rparr> else r) (refreshToken_table db)
      = refreshToken_table db" if "t \<notin> token ` set (refreshToken_table db)"
    using that by (intro map_idI) auto
  then have c: "t \<notin> token ` set (refreshToken_table db) \<longrightarrow> fst (logout now db t) = db"
    by (simp add: logout_def refreshToken_updateMany_def)
  have d: "fst (logout now2 (fst (logout now db t)) t) = fst (logout now2 db t)" for now2
    by (simp add: logout_def refreshToken_updateMany_def)
  have e: "map (\<lambda>x. revokedAt x \<noteq> None) (refreshToken_table (fst (logout now' (fst (logout now db t)) t)))
       = map (\<lambda>x. revokedAt x \<noteq> None) (refreshToken_table (fst (logout now db t)))"
    by (simp add: logout_def refreshToken_updateMany_def)
  have f: "snd (logout now db t) = Inr ()" "snd (logout now' (fst (logout now db t)) t) = Inr ()"
    "user_table (fst (logout now db t)) = user_table db"
    by (simp_all add: logout_def refreshToken_updateMany_def)
  show ?thesis
    by (intro conjI) (rule logout_revokes_matching a b c d e f)+
qed

theorem logout_total_idempotent_witness:
  "snd (logout 1000 ex_db ''R1'') = Inr ()
   \<and> snd (logout 2000 (fst (logout 1000 ex_db ''R1'')) ''R1'') = Inr ()
   \<and> fst (logout 2000 (fst (logout 1000 ex_db ''R1'')) ''R1'') = fst (logout 2000 ex_db ''R1'')
   \<and> fst (logout 1000 (fst (logout 1000 ex_db ''R1'')) ''R1'') = fst (logout 1000 ex_db ''R1'')
   \<and> ''R0'' \<notin> token ` set (refreshToken_table ex_db)
   \<and> fst (logout 1000 ex_db ''R0'') = ex_db
   \<and> refreshToken_table (fst (logout 1000 ex_db_two ''R1'')) =
       [ex_token\<lparr>revokedAt := Some 1000\<rparr>, ex_token_other]
   \<and> map revokedAt (refreshToken_table (fst (logout 1000 ex_db_two ''R1''))) = [Some 1000, None]
   \<and> user_table (fst (logout 1000 ex_db_two ''R1'')) = [ex_user]"
proof -
  have u: "''R0'' \<notin> token ` set (refreshToken_table ex_db)"
    by (simp add: ex_db_def ex_token_def)
  have two: "refreshToken_table ex_db_two = [ex_token, ex_token_other]"
    "user_table ex_db_two = [ex_user]"
    "token ex_token = ''R1''" "token ex_token_other = ''R9''" "revokedAt ex_token_other = None"
    by (simp_all add: ex_db_two_def ex_token_def ex_token_other_def)
  note one = logout_total_idempotent [of 1000 ex_db "''R1''" 2000]
  note unknown = logout_total_idempotent [of 1000 ex_db "''R0''" 2000]
  note pair = logout_total_idempotent [of 1000 ex_db_two "''R1''" 2000]
  have 1: "snd (logout 1000 ex_db ''R1'') = Inr ()"
    using one by (elim conjE)
  have 2: "snd (logout 2000 (fst (logout 1000 ex_db ''R1'')) ''R1'') = Inr ()"
    using one by (elim conjE)
  have 3: "fst (logout 2000 (fst (logout 1000 ex_db ''R1'')) ''R1'') = fst (logout 2000 ex_db ''R1'')"
    using one by (elim conjE)
  have 4: "fst (logout 1000 (fst (logout 1000 ex_db ''R1'')) ''R1'') = fst (logout 1000 ex_db ''R1'')"
    using one by (elim conjE)
  have "''R0'' \<notin> token ` set (refreshToken_table ex_db) \<longrightarrow> fst (logout 1000 ex_db ''R0'') = ex_db"
    using unknown by (elim conjE)
  with u have 5: "fst (logout 1000 ex_db ''R0'') = ex_db" by (rule rev_mp)
  have "refreshToken_table (fst (logout 1000 ex_db_two ''R1'')) =
       map (\<lambda>r. if token r = ''R1'' then r\<lparr>revokedAt := Some 1000\<rparr> else r)
         (refreshToken_table ex_db_two)"
    using pair by (elim conjE)
  then have 6: "refreshToken_table (fst (logout 1000 ex_db_two ''R1'')) =
       [ex_token\<lparr>revokedAt := Some 1000\<rparr>, ex_token_other]"
    by (simp add: two)
  have 7: "map revokedAt (refreshToken_table (fst (logout 1000 ex_db_two ''R1''))) = [Some 1000, None]"
    by (simp add: 6 two)
  have "user_table (fst (logout 1000 ex_db_two ''R1'')) = user_table ex_db_two"
    using pair by (elim conjE)
  then have 8: "user_table (fst (logout 1000 ex_db_two ''R1'')) = [ex_user]"
    by (simp add: two)
  from 1 2 3 4 u 5 6 7 8 show ?thesis by (intro conjI)
qed

section \<open>Google login\<close>








text \<open>The same refusal for every input: no row with the e-mail, and the subject taken by
  another Google row.\<close>

lemma loginWithGoogle_subject_taken:
  assumes "tokeninfo d tok = Some g" "g_email g = Some e" "e \<noteq> []"
    and "find (\<lambda>x. email x = e) (user_table db) = None"
    and "provider_taken (user_table db) new_id ''google'' (g_sub g)"
  shows "loginWithGoogle d cfg now new_id fr db tok = (db, Inl (PrismaError ''P2002''))"
proof -
  have "snd (verifyGoogleToken d cfg tok) = Inr g"
    using assms(1) by (simp add: verifyGoogleToken_def Let_def)
  moreover have "user_upsert db now new_id g e = Inl (PrismaError ''P2002'')"
    using assms(4,5) by (simp add: user_upsert_def user_create_def google_create_def)
  ultimately show ?thesis using assms(2,3) by (simp add: loginWithGoogle_def)
qed


lemma ex_verify: "snd (verifyGoogleToken ex_deps ex_config ''id-token'') = Inr ex_claims"
  by (simp add: verifyGoogleToken_def ex_deps_def Let_def)



section \<open>The token verifier and its caller\<close>

text \<open>
  C5: whenever the provider's endpoint accepts the identity token, \<open>verifyGoogleToken\<close>
  returns the claims it received, whatever their audience. When the audience equals
  neither configured audience the log holds the warning and then the usual entry, and in
  no case an error entry: the mismatch is logged and never rejected.
\<close>

theorem verifyGoogleToken_audience_lenient:
  assumes "tokeninfo d idToken = Some data"
  shows "snd (verifyGoogleToken d cfg idToken) = Inr data
       \<and> (Some (g_aud data) \<noteq> firebase_webClientId cfg \<and> Some (g_aud data) \<noteq> firebase_iosClientId cfg
            \<longrightarrow> fst (verifyGoogleToken d cfg idToken) =
                 [Warn (''Token audience mismatch: expected '' @ show_opt (firebase_webClientId cfg)
                        @ '' or '' @ show_opt (firebase_iosClientId cfg) @ '', got '' @ g_aud data),
                  Log (''Google token verified for user: '' @ show_opt (g_email data))])
       \<and> (\<forall>m. LogError m \<notin> set (fst (verifyGoogleToken d cfg idToken)))"
  using assms by (simp add: verifyGoogleToken_def Let_def)

theorem verifyGoogleToken_audience_lenient_witness:
  "g_aud ex_claims = ''web''
   \<and> snd (verifyGoogleToken ex_deps
        (ex_config\<lparr>firebase_webClientId := Some ''other-web'', firebase_iosClientId := None\<rparr>)
        ''id-token'') = Inr ex_claims
   \<and> fst (verifyGoogleToken ex_deps
        (ex_config\<lparr>firebase_webClientId := Some ''other-web'', firebase_iosClientId := None\<rparr>)
        ''id-token'') =
       [Warn ''Token audience mismatch: expected other-web or undefined, got web'',
        Log ''Google token verified for user: a@b.com'']"
proof -
  have t: "tokeninfo ex_deps ''id-token'' = Some ex_claims" by (simp add: ex_deps_def)
  show ?thesis
    using verifyGoogleToken_audience_lenient [OF t,
        of "ex_config\<lparr>firebase_webClientId := Some ''other-web'', firebase_iosClientId := None\<rparr>"]
    by (simp add: ex_claims_def show_opt_def)
qed

text \<open>
  C4 fails on the code. With the only user soft-deleted, \<open>getMe\<close> and \<open>login\<close> reject
  (their queries filter \<open>deletedAt: null\<close>), but the Google login finds the row through its
  upsert by e-mail alone and returns a session for it, and \<open>refreshTokens\<close> mints a new
  pair for it through the credential's \<open>include: { user: true }\<close>.
\<close>

theorem soft_deleted_user_authenticates:
  "getMe ex_db_deleted ''u1'' = Inl (UnauthorizedException ''User not found'')
   \<and> login ex_deps ex_config ex_fresh ex_db_deleted ''a@b.com'' ''pw'' =
       (ex_db_deleted, Inl (UnauthorizedException ''Invalid credentials''))
   \<and> snd (loginWithGoogle ex_deps ex_config 20 ''u2'' ex_fresh ex_db_deleted ''id-token'') =
       Inr (select_user (ex_user\<lparr>deletedAt := Some 5\<rparr>),
            \<lparr>accessToken = ''jwt.u1'', refreshToken = ''R2''\<rparr>)
   \<and> snd (refreshTokens ex_deps ex_config 500 600 ex_fresh ex_db_deleted ''R1'') =
       Inr \<lparr>accessToken = ''jwt.u1'', refreshToken = ''R2''\<rparr>"
proof -
  have a: "getMe ex_db_deleted ''u1'' = Inl (UnauthorizedException ''User not found'')"
    by (simp add: getMe_def ex_db_deleted_def ex_user_def)
  have b: "login ex_deps ex_config ex_fresh ex_db_deleted ''a@b.com'' ''pw'' =
       (ex_db_deleted, Inl (UnauthorizedException ''Invalid credentials''))"
    by (simp add: login_def ex_db_deleted_def ex_user_def)
  have c: "snd (loginWithGoogle ex_deps ex_config 20 ''u2'' ex_fresh ex_db_deleted ''id-token'') =
       Inr (select_user (ex_user\<lparr>deletedAt := Some 5\<rparr>),
            \<lparr>accessToken = ''jwt.u1'', refreshToken = ''R2''\<rparr>)"
    by (simp add: loginWithGoogle_def ex_verify)
      (simp add: ex_deps_def ex_claims_def user_upsert_def google_update_def
        provider_taken_def or_null_def generateTokens_def ex_lifetimes refreshToken_create_def
        ex_user_def ex_db_deleted_def ex_token_def ex_fresh_def select_user_def)
  have d: "snd (refreshTokens ex_deps ex_config 500 600 ex_fresh ex_db_deleted ''R1'') =
       Inr \<lparr>accessToken = ''jwt.u1'', refreshToken = ''R2''\<rparr>"
    by (simp add: refreshTokens_def refreshToken_findUnique_def ex_db_deleted_def ex_token_def
      ex_user_def refreshToken_revoke_def generateTokens_def ex_deps_def ex_lifetimes
      refreshToken_create_def ex_fresh_def)
  from a b c d show ?thesis by (intro conjI)
qed

theorem soft_deleted_user_authenticates_witness:
  "map deletedAt (user_table ex_db_deleted) = [Some 5]
   \<and> (\<exists>session. snd (loginWithGoogle ex_deps ex_config 20 ''u2'' ex_fresh ex_db_deleted
          ''id-token'') = Inr session \<and> v_id (fst session) = ''u1'')
   \<and> (\<exists>pair. snd (refreshTokens ex_deps ex_config 500 600 ex_fresh ex_db_deleted ''R1'') =
          Inr pair)"
  using soft_deleted_user_authenticates
  by (simp add: ex_db_deleted_def select_user_def ex_user_def)

text \<open>
  C6 fails on the code in its first case. When the provider rejects the token the login
  fails and writes nothing, but with the plain \<open>Error\<close> the verifier throws, not with the
  401 exception; when the claims lack an e-mail it fails with the 401 exception.
\<close>

theorem loginWithGoogle_rejected_token_error:
  "tokeninfo ex_deps ''bad-token'' = None
   \<and> loginWithGoogle ex_deps ex_config 20 ''u2'' ex_fresh ex_db ''bad-token'' =
       (ex_db, Inl (Error ''Invalid Google token''))
   \<and> loginWithGoogle ex_deps_no_email ex_config 20 ''u2'' ex_fresh ex_db ''id-token'' =
       (ex_db, Inl (UnauthorizedException ''Email not provided by Google''))"
  by (simp add: loginWithGoogle_def verifyGoogleToken_def ex_deps_def ex_deps_no_email_def
      Let_def)

text \<open>The same two outcomes for every input: the database is returned as it was, so no
  user and no credential is created, and no identity is substituted.\<close>

lemma loginWithGoogle_failures:
  "tokeninfo d tok = None \<Longrightarrow>
     loginWithGoogle d cfg now new_id fr db tok = (db, Inl (Error ''Invalid Google token''))"
  "tokeninfo d tok = Some g \<Longrightarrow> \<not> truthy (g_email g) \<Longrightarrow>
     loginWithGoogle d cfg now new_id fr db tok =
       (db, Inl (UnauthorizedException ''Email not provided by Google''))"
  by (auto simp: loginWithGoogle_def verifyGoogleToken_def Let_def truthy_def split: option.splits)

section \<open>The request pipeline retries at most once\<close>

declare api.simps [simp del]

lemma attach_token_retry: "retry (attach_token st config) = retry config"
  by (simp add: attach_token_def split: option.splits)

lemma error_status_401: "error_status res = Some 401 \<Longrightarrow> fulfilled res = None"
  by (auto simp: error_status_def fulfilled_def split: http_result.splits)

lemma try_refresh_events:
  assumes "try_refresh nw st = (evs, st1, r)"
  shows "sends evs = 0 \<and> refresh_calls evs \<le> 1 \<and> (\<forall>a. r = Renewed a \<longrightarrow> refresh_calls evs = 1)"
  using assms
  by (auto simp: try_refresh_def sends_def refresh_calls_def
      split: option.splits if_splits refresh_result.splits)

lemma counts_append:
  "sends (xs @ ys) = sends xs + sends ys" "refresh_calls (xs @ ys) = refresh_calls xs + refresh_calls ys"
  "sends (Sent c # xs) = Suc (sends xs)" "refresh_calls (Sent c # xs) = refresh_calls xs"
  "sends [LoggedOut] = 0" "refresh_calls [LoggedOut] = 0" "sends [] = 0" "refresh_calls [] = 0"
  by (simp_all add: sends_def refresh_calls_def)

text \<open>A request that carries the mark is sent once and never refreshed.\<close>

lemma api_marked:
  assumes "retry config"
  shows "api nw st attempt config =
           (st, [Sent (attach_token st config)],
            case fulfilled (transport nw attempt (attach_token st config)) of
              Some (status, data) \<Rightarrow> Resolved status data
            | None \<Rightarrow> Rejected (transport nw attempt (attach_token st config)))"
  using assms
  by (subst api.simps) (simp add: Let_def attach_token_retry split: option.splits)

text \<open>
  C8: one call of the \<open>api\<close> instance, whatever the network answers and whatever the store
  holds, calls the refresh endpoint at most once and sends the request at most twice.
  When a request without the mark gets a 401, the refresh succeeds and the replay gets a
  401 again, the call is exactly: the first send, one refresh, one replay carrying the
  mark, and then the rejection with the replay's 401 response, with the refreshed store
  left in place and no logout.
\<close>

theorem api_retry_at_most_once:
  "refresh_calls (fst (snd (api nw st attempt config))) \<le> 1
   \<and> sends (fst (snd (api nw st attempt config))) \<le> 2
   \<and> (\<not> retry config
        \<and> error_status (transport nw attempt (attach_token st config)) = Some 401
        \<and> try_refresh nw st = (evs, st1, Renewed access)
        \<and> replay = attach_token st1 ((attach_token st config)
                      \<lparr>retry := True, authorization := Some (''Bearer '' @ show_opt access)\<rparr>)
        \<and> error_status (transport nw (Suc attempt) replay) = Some 401
      \<longrightarrow> api nw st attempt config =
            (st1, Sent (attach_token st config) # evs @ [Sent replay],
             Rejected (transport nw (Suc attempt) replay))
          \<and> refresh_calls (fst (snd (api nw st attempt config))) = 1
          \<and> sends (fst (snd (api nw st attempt config))) = 2)"
proof -
  let ?cfg = "attach_token st config"
  let ?res = "transport nw attempt ?cfg"
  have bound: "refresh_calls (fst (snd (api nw st attempt config))) \<le> 1
      \<and> sends (fst (snd (api nw st attempt config))) \<le> 2"
  proof (cases "fulfilled ?res")
    case (Some sd)
    then show ?thesis
      by (subst api.simps, subst (2) api.simps)
        (simp add: Let_def counts_append split: prod.splits)
  next
    case None
    show ?thesis
    proof (cases "error_status ?res = Some 401 \<and> \<not> retry ?cfg")
      case False
      with None show ?thesis
        by (subst api.simps, subst (2) api.simps) (auto simp: Let_def counts_append)
    next
      case True
      obtain evs' st' r where tr: "try_refresh nw st = (evs', st', r)"
        by (cases "try_refresh nw st") auto
      note ev = try_refresh_events [OF tr]
      show ?thesis
      proof (cases r)
        case Threw
        with None True tr ev show ?thesis
          by (subst api.simps, subst (2) api.simps) (simp add: Let_def counts_append)
      next
        case (Renewed a)
        let ?c2 = "?cfg\<lparr>retry := True, authorization := Some (''Bearer '' @ show_opt a)\<rparr>"
        have m: "retry ?c2" by simp
        have "api nw st attempt config =
            (st', Sent ?cfg # evs' @ [Sent (attach_token st' ?c2)],
             snd (snd (api nw st' (Suc attempt) ?c2)))"
          using None True tr Renewed
          by (subst api.simps) (simp add: Let_def api_marked)
        with ev Renewed show ?thesis by (simp add: counts_append)
      qed
    qed
  qed
  have scen: "api nw st attempt config =
            (st1, Sent ?cfg # evs @ [Sent replay], Rejected (transport nw (Suc attempt) replay))
          \<and> refresh_calls (fst (snd (api nw st attempt config))) = 1
          \<and> sends (fst (snd (api nw st attempt config))) = 2"
    if h: "\<not> retry config" "error_status ?res = Some 401"
      "try_refresh nw st = (evs, st1, Renewed access)"
      "replay = attach_token st1 (?cfg\<lparr>retry := True,
          authorization := Some (''Bearer '' @ show_opt access)\<rparr>)"
      "error_status (transport nw (Suc attempt) replay) = Some 401"
  proof -
    let ?c2 = "?cfg\<lparr>retry := True, authorization := Some (''Bearer '' @ show_opt access)\<rparr>"
    have m: "retry ?c2" by simp
    have f1: "fulfilled ?res = None" using h(2) by (rule error_status_401)
    have f2: "fulfilled (transport nw (Suc attempt) (attach_token st1 ?c2)) = None"
      using h(4,5) error_status_401 by simp
    have "api nw st attempt config =
        (st1, Sent ?cfg # evs @ [Sent replay], Rejected (transport nw (Suc attempt) replay))"
      using f1 f2 h
      by (subst api.simps) (simp add: Let_def attach_token_retry api_marked)
    moreover from try_refresh_events [OF h(3)] have "sends evs = 0" "refresh_calls evs = 1"
      by simp_all
    ultimately show ?thesis by (simp add: counts_append)
  qed
  from bound scen show ?thesis by blast
qed

lemma ex_try_refresh:
  "try_refresh ex_net_401 ex_store =
     ([RefreshCall ''validR''],
      ex_store\<lparr>s_accessToken := Some ''A2'', s_refreshToken := Some ''R2''\<rparr>,
      Renewed (Some ''A2''))"
  by (simp add: try_refresh_def ex_net_401_def ex_store_def setAccessToken_def store_login_def)

theorem api_retry_at_most_once_witness:
  "api ex_net_401 ex_store 0 ex_request =
     (ex_store\<lparr>s_accessToken := Some ''A2'', s_refreshToken := Some ''R2''\<rparr>,
      [Sent \<lparr>url = ''/auth/me'', authorization = Some ''Bearer expired'', retry = False\<rparr>,
       RefreshCall ''validR'',
       Sent \<lparr>url = ''/auth/me'', authorization = Some ''Bearer A2'', retry = True\<rparr>],
      Rejected (Responded 401 (Plain ())))
   \<and> refresh_calls (fst (snd (api ex_net_401 ex_store 0 ex_request))) = 1
   \<and> sends (fst (snd (api ex_net_401 ex_store 0 ex_request))) = 2"
proof -
  have a: "attach_token ex_store ex_request =
      \<lparr>url = ''/auth/me'', authorization = Some ''Bearer expired'', retry = False\<rparr>"
    by (simp add: attach_token_def ex_store_def ex_request_def)
  have c: "error_status (transport ex_net_401 n c) = Some 401" for n c
    by (simp add: ex_net_401_def error_status_def)
  have t: "transport ex_net_401 n c = Responded 401 (Plain ())" for n c
    by (simp add: ex_net_401_def)
  have r: "\<not> retry ex_request" by (simp add: ex_request_def)
  from api_retry_at_most_once [of ex_net_401 ex_store 0 ex_request
      "[RefreshCall ''validR'']"
      "ex_store\<lparr>s_accessToken := Some ''A2'', s_refreshToken := Some ''R2''\<rparr>"
      "Some ''A2''"
      "\<lparr>url = ''/auth/me'', authorization = Some ''Bearer A2'', retry = True\<rparr>"]
  show ?thesis
    by (simp add: a c t r ex_try_refresh)
      (simp add: attach_token_def show_opt_def ex_store_def error_status_def refresh_calls_def
        sends_def)
qed

section \<open>The entry screen waits for hydration\<close>

lemma step_before_hydration:
  assumes "\<not> s_hasHydrated (store s)" "timer s = None" "replaced s = []" "before_hydration ev"
  shows "\<not> s_hasHydrated (store (step s ev)) \<and> timer (step s ev) = None
         \<and> replaced (step s ev) = []"
  using assms
  by (cases ev) (simp_all add: rerender_def Let_def index_effect_def)

lemma run_before_hydration:
  assumes "\<not> s_hasHydrated (store s)" "timer s = None" "replaced s = []"
    "list_all before_hydration evs"
  shows "\<not> s_hasHydrated (store (foldl step s evs)) \<and> timer (foldl step s evs) = None
         \<and> replaced (foldl step s evs) = []"
  using assms
proof (induction evs arbitrary: s)
  case Nil
  then show ?case by simp
next
  case (Cons ev evs)
  from Cons.prems have "before_hydration ev" "list_all before_hydration evs" by simp_all
  with step_before_hydration [OF Cons.prems(1,2,3)] Cons.IH [of "step s ev"]
  show ?case by simp
qed

text \<open>
  C9: from the mount on, as long as the hydration flag of the store stays false, whatever
  else the store holds (an authenticated session included) and whatever happens to the
  screen, the entry screen has called \<open>router.replace\<close> for no route and has no timer
  pending that would.
\<close>

theorem no_navigation_before_hydration:
  assumes "\<not> s_hasHydrated st" and "list_all before_hydration evs"
  shows "replaced (foldl step (mount st key) evs) = []
       \<and> timer (foldl step (mount st key) evs) = None
       \<and> \<not> s_hasHydrated (store (foldl step (mount st key) evs))"
proof -
  have "\<not> s_hasHydrated (store (mount st key))" "timer (mount st key) = None"
    "replaced (mount st key) = []"
    using assms(1) by (simp_all add: mount_def index_effect_def)
  from run_before_hydration [OF this assms(2)] show ?thesis by simp
qed

theorem no_navigation_before_hydration_witness:
  "s_isAuthenticated (rehydrate initial_store (Some (select_user (ex_user\<lparr>hasCompletedOnboarding := True\<rparr>)))
       (Some ''A1'') (Some ''R1'') True)
   \<and> replaced (foldl step (mount initial_store False)
        [NavigationReady,
         StoreUpdate (rehydrate initial_store (Some (select_user (ex_user\<lparr>hasCompletedOnboarding := True\<rparr>)))
            (Some ''A1'') (Some ''R1'') True) True,
         TimerFires]) = []
   \<and> replaced (foldl step (mount initial_store False)
        [NavigationReady,
         StoreUpdate (rehydrate initial_store (Some (select_user (ex_user\<lparr>hasCompletedOnboarding := True\<rparr>)))
            (Some ''A1'') (Some ''R1'') True) True,
         TimerFires,
         StoreUpdate (setHasHydrated (rehydrate initial_store
            (Some (select_user (ex_user\<lparr>hasCompletedOnboarding := True\<rparr>)))
            (Some ''A1'') (Some ''R1'') True) True) False,
         TimerFires]) = [TabsHome]"
proof -
  have h: "\<not> s_hasHydrated initial_store" by (simp add: initial_store_def)
  have l: "list_all before_hydration
        [NavigationReady,
         StoreUpdate (rehydrate initial_store (Some (select_user (ex_user\<lparr>hasCompletedOnboarding := True\<rparr>)))
            (Some ''A1'') (Some ''R1'') True) True,
         TimerFires]"
    by (simp add: rehydrate_def initial_store_def)
  have after: "replaced (foldl step (mount initial_store False)
        [NavigationReady,
         StoreUpdate (rehydrate initial_store (Some (select_user (ex_user\<lparr>hasCompletedOnboarding := True\<rparr>)))
            (Some ''A1'') (Some ''R1'') True) True,
         TimerFires,
         StoreUpdate (setHasHydrated (rehydrate initial_store
            (Some (select_user (ex_user\<lparr>hasCompletedOnboarding := True\<rparr>)))
            (Some ''A1'') (Some ''R1'') True) True) False,
         TimerFires]) = [TabsHome]"
    by (simp add: mount_def initial_store_def rehydrate_def setHasHydrated_def rerender_def
        Let_def index_effect_def effect_deps_def redirect_def select_user_def ex_user_def)
  from no_navigation_before_hydration [OF h l, of False] after
  show ?thesis by (simp add: rehydrate_def)
qed

end
